theory Spec2Isabelle
  imports Main "HOL-Library.Word"
begin

section \<open>The host environment: Go values, types and the reflect package\<close>

text \<open>
  \<^verbatim>\<open>field.go\<close> wraps a \<^verbatim>\<open>reflect.Value\<close> and a \<^verbatim>\<open>reflect.StructField\<close>. Everything it
  does is a call into Go's \<^verbatim>\<open>reflect\<close> package, so the package is modelled first, for a
  fragment of Go: the basic types, defined (named) types, pointers, slices, structs and
  the empty interface. Complex numbers, arrays, channels, functions, maps, unsafe
  pointers, interfaces with methods and recursive types are outside the fragment.
  The Go type \<^verbatim>\<open>int\<close> is taken to be 64 bits wide.
\<close>

subsection \<open>Kinds and types\<close>

text \<open>\<^verbatim>\<open>reflect.Kind\<close>; \<open>IntKind\<close> is \<^verbatim>\<open>reflect.Int\<close>.\<close>

datatype Kind =
    Invalid | Bool | IntKind | Int8 | Int16 | Int32 | Int64
  | Uint | Uint8 | Uint16 | Uint32 | Uint64 | Uintptr
  | Float32 | Float64 | Complex64 | Complex128
  | Array | Chan | Func | Interface | Map | Ptr | Slice | String | Struct | UnsafePointer

text \<open>\<^verbatim>\<open>Kind.String()\<close>, which \<^verbatim>\<open>fmt.Errorf("%s")\<close> prints.\<close>

fun kindString :: "Kind \<Rightarrow> string" where
  "kindString Invalid = ''invalid''"
| "kindString Bool = ''bool''"
| "kindString IntKind = ''int''"
| "kindString Int8 = ''int8''"
| "kindString Int16 = ''int16''"
| "kindString Int32 = ''int32''"
| "kindString Int64 = ''int64''"
| "kindString Uint = ''uint''"
| "kindString Uint8 = ''uint8''"
| "kindString Uint16 = ''uint16''"
| "kindString Uint32 = ''uint32''"
| "kindString Uint64 = ''uint64''"
| "kindString Uintptr = ''uintptr''"
| "kindString Float32 = ''float32''"
| "kindString Float64 = ''float64''"
| "kindString Complex64 = ''complex64''"
| "kindString Complex128 = ''complex128''"
| "kindString Array = ''array''"
| "kindString Chan = ''chan''"
| "kindString Func = ''func''"
| "kindString Interface = ''interface''"
| "kindString Map = ''map''"
| "kindString Ptr = ''ptr''"
| "kindString Slice = ''slice''"
| "kindString String = ''string''"
| "kindString Struct = ''struct''"
| "kindString UnsafePointer = ''unsafe.Pointer''"

datatype basic =
    TBool | TInt | TInt8 | TInt16 | TInt32 | TInt64
  | TUint | TUint8 | TUint16 | TUint32 | TUint64 | TUintptr
  | TFloat32 | TFloat64 | TString

fun basicKind :: "basic \<Rightarrow> Kind" where
  "basicKind TBool = Bool"
| "basicKind TInt = IntKind"
| "basicKind TInt8 = Int8"
| "basicKind TInt16 = Int16"
| "basicKind TInt32 = Int32"
| "basicKind TInt64 = Int64"
| "basicKind TUint = Uint"
| "basicKind TUint8 = Uint8"
| "basicKind TUint16 = Uint16"
| "basicKind TUint32 = Uint32"
| "basicKind TUint64 = Uint64"
| "basicKind TUintptr = Uintptr"
| "basicKind TFloat32 = Float32"
| "basicKind TFloat64 = Float64"
| "basicKind TString = String"

text \<open>
  What a struct type declares of a field besides its type: the name, the package path
  (empty exactly for an exported field), the raw tag string and the embedded flag.
\<close>

record fieldDecl =
  declName :: string
  declPkgPath :: string
  declTag :: string
  declEmbedded :: bool

text \<open>
  Types. \<open>Named n t\<close> is the defined type \<^verbatim>\<open>type n t\<close>; the predeclared types are
  \<open>Basic\<close>; \<open>EmptyInterface\<close> is \<^verbatim>\<open>interface{}\<close>.
\<close>

datatype gotype =
    Basic basic
  | Named string gotype
  | PtrTo gotype
  | SliceOf gotype
  | StructOf "(fieldDecl \<times> gotype) list"
  | EmptyInterface

fun underlying :: "gotype \<Rightarrow> gotype" where
  "underlying (Named n t) = underlying t"
| "underlying t = t"

fun kindOf :: "gotype \<Rightarrow> Kind" where
  "kindOf (Basic b) = basicKind b"
| "kindOf (Named n t) = kindOf t"
| "kindOf (PtrTo t) = Ptr"
| "kindOf (SliceOf t) = Slice"
| "kindOf (StructOf fds) = Struct"
| "kindOf EmptyInterface = Interface"

text \<open>The fields of a struct type, and the element type of a pointer type.\<close>

fun structFields :: "gotype \<Rightarrow> (fieldDecl \<times> gotype) list" where
  "structFields (StructOf fds) = fds"
| "structFields (Named n t) = structFields t"
| "structFields _ = []"

fun elemType :: "gotype \<Rightarrow> gotype option" where
  "elemType (PtrTo t) = Some t"
| "elemType (Named n t) = elemType t"
| "elemType _ = None"

text \<open>
  \<^verbatim>\<open>directlyAssignable(T, V)\<close> of \<^verbatim>\<open>reflect/type.go\<close>: identical types, or identical
  underlying types when at most one of the two has a name.
\<close>

fun hasName :: "gotype \<Rightarrow> bool" where
  "hasName (Basic b) = True"
| "hasName (Named n t) = True"
| "hasName _ = False"

definition directlyAssignable :: "gotype \<Rightarrow> gotype \<Rightarrow> bool" where
  "directlyAssignable T V =
     (if T = V then True
      else if (hasName T \<and> hasName V) \<or> kindOf T \<noteq> kindOf V then False
      else underlying T = underlying V)"

text \<open>\<^verbatim>\<open>implements(T, V)\<close>: every type implements an interface without methods.\<close>

definition implements :: "gotype \<Rightarrow> gotype \<Rightarrow> bool" where
  "implements T V = (kindOf T = Interface)"

subsection \<open>Values and the store\<close>

text \<open>
  A location is an allocated object and a path of struct field indices into it. Integers
  are kept as 64-bit words (sign-extended for the signed kinds), floats as their IEEE-754
  bit patterns. A slice is its element list or nil; the sharing of backing arrays is not
  modelled, no operation of \<^verbatim>\<open>field.go\<close> writes a slice element. An interface value is nil
  or a dynamic type with a value of that type.
\<close>

type_synonym loc = "nat \<times> nat list"

datatype goval =
    VBool bool
  | VInt "64 word"
  | VUint "64 word"
  | VFloat32 "32 word"
  | VFloat64 "64 word"
  | VString string
  | VPtr "loc option"
  | VSlice "goval list option"
  | VStruct "goval list"
  | VIface "(gotype \<times> goval) option"

type_synonym iface = "(gotype \<times> goval) option"

type_synonym store = "nat \<Rightarrow> goval option"

fun readPath :: "goval \<Rightarrow> nat list \<Rightarrow> goval option" where
  "readPath v [] = Some v"
| "readPath (VStruct vs) (i # p) = (if i < length vs then readPath (vs ! i) p else None)"
| "readPath _ (i # p) = None"

fun writePath :: "goval \<Rightarrow> nat list \<Rightarrow> goval \<Rightarrow> goval option" where
  "writePath v [] x = Some x"
| "writePath (VStruct vs) (i # p) x =
     (if i < length vs
      then (case writePath (vs ! i) p x of
              None \<Rightarrow> None
            | Some w \<Rightarrow> Some (VStruct (vs[i := w])))
      else None)"
| "writePath _ (i # p) x = None"

definition readLoc :: "store \<Rightarrow> loc \<Rightarrow> goval option" where
  "readLoc s l = (case s (fst l) of None \<Rightarrow> None | Some v \<Rightarrow> readPath v (snd l))"

definition writeLoc :: "store \<Rightarrow> loc \<Rightarrow> goval \<Rightarrow> store option" where
  "writeLoc s l x =
     (case s (fst l) of
        None \<Rightarrow> None
      | Some v \<Rightarrow> (case writePath v (snd l) x of
                    None \<Rightarrow> None
                  | Some w \<Rightarrow> Some (s(fst l \<mapsto> w))))"

text \<open>The zero value of a type (\<^verbatim>\<open>reflect.Zero\<close>).\<close>

fun zeroVal :: "gotype \<Rightarrow> goval" where
  "zeroVal (Basic TBool) = VBool False"
| "zeroVal (Basic TInt) = VInt 0"
| "zeroVal (Basic TInt8) = VInt 0"
| "zeroVal (Basic TInt16) = VInt 0"
| "zeroVal (Basic TInt32) = VInt 0"
| "zeroVal (Basic TInt64) = VInt 0"
| "zeroVal (Basic TUint) = VUint 0"
| "zeroVal (Basic TUint8) = VUint 0"
| "zeroVal (Basic TUint16) = VUint 0"
| "zeroVal (Basic TUint32) = VUint 0"
| "zeroVal (Basic TUint64) = VUint 0"
| "zeroVal (Basic TUintptr) = VUint 0"
| "zeroVal (Basic TFloat32) = VFloat32 0"
| "zeroVal (Basic TFloat64) = VFloat64 0"
| "zeroVal (Basic TString) = VString []"
| "zeroVal (Named n t) = zeroVal t"
| "zeroVal (PtrTo t) = VPtr None"
| "zeroVal (SliceOf t) = VSlice None"
| "zeroVal (StructOf fds) = VStruct (map (\<lambda>fd. zeroVal (snd fd)) fds)"
| "zeroVal EmptyInterface = VIface None"

text \<open>
  A value has a type when its shape is the type's; a signed or unsigned integer of a
  narrow kind is in that kind's range. What a pointer points to is a matter of the store.
\<close>

definition basicHas :: "basic \<Rightarrow> goval \<Rightarrow> bool" where
  "basicHas b v =
     (case v of
        VBool x \<Rightarrow> b = TBool
      | VInt w \<Rightarrow>
          b = TInt \<or> b = TInt64 \<or> (b = TInt8 \<and> w = scast (ucast w :: 8 word))
          \<or> (b = TInt16 \<and> w = scast (ucast w :: 16 word))
          \<or> (b = TInt32 \<and> w = scast (ucast w :: 32 word))
      | VUint w \<Rightarrow>
          b = TUint \<or> b = TUint64 \<or> b = TUintptr
          \<or> (b = TUint8 \<and> w = ucast (ucast w :: 8 word))
          \<or> (b = TUint16 \<and> w = ucast (ucast w :: 16 word))
          \<or> (b = TUint32 \<and> w = ucast (ucast w :: 32 word))
      | VFloat32 w \<Rightarrow> b = TFloat32
      | VFloat64 w \<Rightarrow> b = TFloat64
      | VString x \<Rightarrow> b = TString
      | _ \<Rightarrow> False)"

fun hasType :: "gotype \<Rightarrow> goval \<Rightarrow> bool"
  and hasTypes :: "(fieldDecl \<times> gotype) list \<Rightarrow> goval list \<Rightarrow> bool"
  and hasTypeAll :: "gotype \<Rightarrow> goval list \<Rightarrow> bool" where
  "hasType (Basic b) v = basicHas b v"
| "hasType (Named n t) v = hasType t v"
| "hasType (PtrTo t) v = (case v of VPtr p \<Rightarrow> True | _ \<Rightarrow> False)"
| "hasType (SliceOf t) v =
     (case v of VSlice None \<Rightarrow> True | VSlice (Some xs) \<Rightarrow> hasTypeAll t xs | _ \<Rightarrow> False)"
| "hasType (StructOf fds) v = (case v of VStruct vs \<Rightarrow> hasTypes fds vs | _ \<Rightarrow> False)"
| "hasType EmptyInterface v =
     (case v of
        VIface None \<Rightarrow> True
      | VIface (Some (D, x)) \<Rightarrow> kindOf D \<noteq> Interface \<and> hasType D x
      | _ \<Rightarrow> False)"
| "hasTypes [] vs = (vs = [])"
| "hasTypes (fd # fds) vs =
     (case vs of [] \<Rightarrow> False | v # ws \<Rightarrow> hasType (snd fd) v \<and> hasTypes fds ws)"
| "hasTypeAll t [] = True"
| "hasTypeAll t (v # vs) = (hasType t v \<and> hasTypeAll t vs)"

subsection \<open>Panics\<close>

text \<open>
  A call either returns or aborts. \<open>Panic\<close> is a Go run-time panic with its message;
  \<open>NotAssignable V T\<close> is the panic of \<^verbatim>\<open>reflect.Set\<close>, "value of type V is not assignable
  to type T". \<open>Stuck\<close> is no Go behaviour: the model stops there when the store has no
  object at a location, when a stored value has not the shape of its type, or when the
  bound on pointer traversals of \<open>deepValueEqual\<close> is used up.
\<close>

datatype abort = Panic string | NotAssignable gotype gotype | Stuck

definition valueError :: "string \<Rightarrow> Kind \<Rightarrow> abort" where
  "valueError method k =
     (if k = Invalid then Panic (''reflect: call of '' @ method @ '' on zero Value'')
      else Panic (''reflect: call of '' @ method @ '' on '' @ kindString k @ '' Value''))"

subsection \<open>reflect.Value\<close>

text \<open>
  A \<^verbatim>\<open>reflect.Value\<close> is the zero Value or a type, the two read-only flags
  (\<^verbatim>\<open>flagStickyRO\<close>, \<^verbatim>\<open>flagEmbedRO\<close>) and the data: a copy the Value holds itself, or a
  location of the store. The Value is addressable (\<^verbatim>\<open>flagAddr\<close>) exactly in the second case.
\<close>

datatype storage = Held goval | At loc

datatype Value = ZeroValue | Val gotype bool bool storage

definition flagRO :: "Value \<Rightarrow> bool" where
  "flagRO v = (case v of ZeroValue \<Rightarrow> False | Val T st em d \<Rightarrow> st \<or> em)"

definition flagAddr :: "Value \<Rightarrow> bool" where
  "flagAddr v = (case v of Val T st em (At l) \<Rightarrow> True | _ \<Rightarrow> False)"

definition load :: "store \<Rightarrow> storage \<Rightarrow> goval option" where
  "load s d = (case d of Held x \<Rightarrow> Some x | At l \<Rightarrow> readLoc s l)"

definition Value_Kind :: "Value \<Rightarrow> Kind" where
  "Value_Kind v = (case v of ZeroValue \<Rightarrow> Invalid | Val T st em d \<Rightarrow> kindOf T)"

definition Value_Type :: "Value \<Rightarrow> abort + gotype" where
  "Value_Type v =
     (case v of
        ZeroValue \<Rightarrow> Inl (valueError ''reflect.Value.Type'' Invalid)
      | Val T st em d \<Rightarrow> Inr T)"

definition Value_CanSet :: "Value \<Rightarrow> bool" where
  "Value_CanSet v = (flagAddr v \<and> \<not> flagRO v)"

definition reflect_ValueOf :: "iface \<Rightarrow> Value" where
  "reflect_ValueOf i = (case i of None \<Rightarrow> ZeroValue | Some (T, x) \<Rightarrow> Val T False False (Held x))"

definition reflect_Zero :: "gotype \<Rightarrow> Value" where
  "reflect_Zero T = Val T False False (Held (zeroVal T))"

text \<open>
  \<^verbatim>\<open>Value.Elem\<close>: the dynamic value of an interface (read-only when the interface was) or
  the addressable target of a pointer (keeping both read-only flags); the zero Value for
  nil; a panic on any other kind.
\<close>

definition Value_Elem :: "store \<Rightarrow> Value \<Rightarrow> abort + Value" where
  "Value_Elem s v =
     (case v of
        ZeroValue \<Rightarrow> Inl (valueError ''reflect.Value.Elem'' Invalid)
      | Val T st em d \<Rightarrow>
          if kindOf T = Interface then
            (case load s d of
               Some (VIface None) \<Rightarrow> Inr ZeroValue
             | Some (VIface (Some (D, y))) \<Rightarrow> Inr (Val D (st \<or> em) False (Held y))
             | _ \<Rightarrow> Inl Stuck)
          else if kindOf T = Ptr then
            (case load s d of
               Some (VPtr None) \<Rightarrow> Inr ZeroValue
             | Some (VPtr (Some l)) \<Rightarrow>
                 (case elemType T of None \<Rightarrow> Inl Stuck | Some E \<Rightarrow> Inr (Val E st em (At l)))
             | _ \<Rightarrow> Inl Stuck)
          else Inl (valueError ''reflect.Value.Elem'' (kindOf T)))"

definition reflect_Indirect :: "store \<Rightarrow> Value \<Rightarrow> abort + Value" where
  "reflect_Indirect s v = (if Value_Kind v \<noteq> Ptr then Inr v else Value_Elem s v)"

text \<open>
  \<^verbatim>\<open>Value.Interface\<close> panics on the zero Value and on a read-only Value; for a Value of
  interface kind it returns the interface's own content.
\<close>

definition Value_Interface :: "store \<Rightarrow> Value \<Rightarrow> abort + iface" where
  "Value_Interface s v =
     (case v of
        ZeroValue \<Rightarrow> Inl (valueError ''reflect.Value.Interface'' Invalid)
      | Val T st em d \<Rightarrow>
          if st \<or> em then
            Inl (Panic ''reflect.Value.Interface: cannot return value obtained from unexported field or method'')
          else
            (case load s d of
               None \<Rightarrow> Inl Stuck
             | Some y \<Rightarrow>
                 if kindOf T = Interface
                 then (case y of VIface i \<Rightarrow> Inr i | _ \<Rightarrow> Inl Stuck)
                 else Inr (Some (T, y))))"

definition mustBeAssignable :: "string \<Rightarrow> Value \<Rightarrow> abort option" where
  "mustBeAssignable method v =
     (if v = ZeroValue then Some (valueError method Invalid)
      else if flagRO v then
        Some (Panic (''reflect: '' @ method @ '' using value obtained using unexported field''))
      else if \<not> flagAddr v then
        Some (Panic (''reflect: '' @ method @ '' using unaddressable value''))
      else None)"

definition mustBeExported :: "string \<Rightarrow> Value \<Rightarrow> abort option" where
  "mustBeExported method v =
     (if v = ZeroValue then Some (valueError method Invalid)
      else if flagRO v then
        Some (Panic (''reflect: '' @ method @ '' using value obtained using unexported field''))
      else None)"

text \<open>
  \<^verbatim>\<open>Value.Set\<close> and its \<^verbatim>\<open>assignTo\<close>: the value is stored as it is when its type is
  directly assignable, wrapped into an interface when the target is an interface, and
  the call panics otherwise, with \<open>NotAssignable\<close>.
\<close>

definition assignTo :: "gotype \<Rightarrow> gotype \<Rightarrow> goval \<Rightarrow> abort + goval" where
  "assignTo dst V y =
     (if directlyAssignable dst V then Inr y
      else if implements dst V then
        Inr (if kindOf V = Interface then y else VIface (Some (V, y)))
      else Inl (NotAssignable V dst))"

definition Value_Set :: "store \<Rightarrow> Value \<Rightarrow> Value \<Rightarrow> abort + store" where
  "Value_Set s v x =
     (case mustBeAssignable ''reflect.Value.Set'' v of
        Some a \<Rightarrow> Inl a
      | None \<Rightarrow>
     (case mustBeExported ''reflect.Value.Set'' x of
        Some a \<Rightarrow> Inl a
      | None \<Rightarrow>
     (case (v, x) of
        (Val T st em (At l), Val V st' em' d) \<Rightarrow>
          (case load s d of
             None \<Rightarrow> Inl Stuck
           | Some y \<Rightarrow>
               (case assignTo T V y of
                  Inl a \<Rightarrow> Inl a
                | Inr w \<Rightarrow> (case writeLoc s l w of None \<Rightarrow> Inl Stuck | Some s' \<Rightarrow> Inr s')))
      | _ \<Rightarrow> Inl Stuck)))"

text \<open>
  The typed setters: a panic unless the kind is in the setter's family, else the
  argument converted to the target's width. The conversion \<^verbatim>\<open>float32(x)\<close> rounds; it is the
  parameter \<open>float32\<close>.
\<close>

definition store_at :: "store \<Rightarrow> Value \<Rightarrow> goval \<Rightarrow> abort + store" where
  "store_at s v w =
     (case v of
        Val T st em (At l) \<Rightarrow> (case writeLoc s l w of None \<Rightarrow> Inl Stuck | Some s' \<Rightarrow> Inr s')
      | _ \<Rightarrow> Inl Stuck)"

definition Value_SetInt :: "store \<Rightarrow> Value \<Rightarrow> 64 word \<Rightarrow> abort + store" where
  "Value_SetInt s v x =
     (case mustBeAssignable ''reflect.Value.SetInt'' v of
        Some a \<Rightarrow> Inl a
      | None \<Rightarrow>
          (let k = Value_Kind v in
           if k = IntKind then store_at s v (VInt x)
           else if k = Int8 then store_at s v (VInt (scast (ucast x :: 8 word)))
           else if k = Int16 then store_at s v (VInt (scast (ucast x :: 16 word)))
           else if k = Int32 then store_at s v (VInt (scast (ucast x :: 32 word)))
           else if k = Int64 then store_at s v (VInt x)
           else Inl (valueError ''reflect.Value.SetInt'' k)))"

definition Value_SetUint :: "store \<Rightarrow> Value \<Rightarrow> 64 word \<Rightarrow> abort + store" where
  "Value_SetUint s v x =
     (case mustBeAssignable ''reflect.Value.SetUint'' v of
        Some a \<Rightarrow> Inl a
      | None \<Rightarrow>
          (let k = Value_Kind v in
           if k = Uint then store_at s v (VUint x)
           else if k = Uint8 then store_at s v (VUint (ucast (ucast x :: 8 word)))
           else if k = Uint16 then store_at s v (VUint (ucast (ucast x :: 16 word)))
           else if k = Uint32 then store_at s v (VUint (ucast (ucast x :: 32 word)))
           else if k = Uint64 then store_at s v (VUint x)
           else if k = Uintptr then store_at s v (VUint x)
           else Inl (valueError ''reflect.Value.SetUint'' k)))"

definition Value_SetFloat ::
  "(64 word \<Rightarrow> 32 word) \<Rightarrow> store \<Rightarrow> Value \<Rightarrow> 64 word \<Rightarrow> abort + store" where
  "Value_SetFloat float32 s v x =
     (case mustBeAssignable ''reflect.Value.SetFloat'' v of
        Some a \<Rightarrow> Inl a
      | None \<Rightarrow>
          (let k = Value_Kind v in
           if k = Float32 then store_at s v (VFloat32 (float32 x))
           else if k = Float64 then store_at s v (VFloat64 x)
           else Inl (valueError ''reflect.Value.SetFloat'' k)))"

subsection \<open>Struct fields\<close>

text \<open>\<^verbatim>\<open>reflect.StructField\<close>, without the byte offset.\<close>

record StructField =
  sf_Name :: string
  sf_PkgPath :: string
  sf_Type :: gotype
  sf_Tag :: string
  sf_Index :: "nat list"
  sf_Anonymous :: bool

definition mkStructField :: "fieldDecl \<times> gotype \<Rightarrow> nat list \<Rightarrow> StructField" where
  "mkStructField d idx =
     \<lparr>sf_Name = declName (fst d), sf_PkgPath = declPkgPath (fst d), sf_Type = snd d,
      sf_Tag = declTag (fst d), sf_Index = idx, sf_Anonymous = declEmbedded (fst d)\<rparr>"

text \<open>
  \<^verbatim>\<open>Value.Field(i)\<close>: the i-th field of a struct. It inherits \<^verbatim>\<open>flagStickyRO\<close> and the
  addressability of the struct and clears \<^verbatim>\<open>flagEmbedRO\<close>; an unexported field sets
  \<^verbatim>\<open>flagEmbedRO\<close> when it is embedded and \<^verbatim>\<open>flagStickyRO\<close> when it is not.
\<close>

definition Value_Field :: "Value \<Rightarrow> nat \<Rightarrow> abort + Value" where
  "Value_Field v i =
     (case v of
        ZeroValue \<Rightarrow> Inl (valueError ''reflect.Value.Field'' Invalid)
      | Val T st em d \<Rightarrow>
          if kindOf T \<noteq> Struct then Inl (valueError ''reflect.Value.Field'' (kindOf T))
          else if i \<ge> length (structFields T) then Inl (Panic ''reflect: Field index out of range'')
          else
            (let fd = structFields T ! i;
                 unexported = (declPkgPath (fst fd) \<noteq> []);
                 st' = (st \<or> (unexported \<and> \<not> declEmbedded (fst fd)));
                 em' = (unexported \<and> declEmbedded (fst fd))
             in case d of
                  At l \<Rightarrow> Inr (Val (snd fd) st' em' (At (fst l, snd l @ [i])))
                | Held (VStruct vs) \<Rightarrow>
                    if i < length vs then Inr (Val (snd fd) st' em' (Held (vs ! i))) else Inl Stuck
                | Held _ \<Rightarrow> Inl Stuck))"

text \<open>
  \<^verbatim>\<open>Value.FieldByIndex\<close>: one \<^verbatim>\<open>Field\<close> call per index, stepping through a pointer to an
  embedded struct between them and panicking when that pointer is nil.
\<close>

definition throughPointer :: "store \<Rightarrow> bool \<Rightarrow> Value \<Rightarrow> abort + Value" where
  "throughPointer s first v =
     (if \<not> first \<and> Value_Kind v = Ptr
         \<and> (case v of
               ZeroValue \<Rightarrow> False
             | Val T st em d \<Rightarrow> (case elemType T of None \<Rightarrow> False | Some E \<Rightarrow> kindOf E = Struct))
      then (case Value_Elem s v of
              Inl a \<Rightarrow> Inl a
            | Inr ZeroValue \<Rightarrow>
                Inl (Panic ''reflect: indirection through nil pointer to embedded struct'')
            | Inr w \<Rightarrow> Inr w)
      else Inr v)"

fun fieldByIndexLoop :: "store \<Rightarrow> bool \<Rightarrow> Value \<Rightarrow> nat list \<Rightarrow> abort + Value" where
  "fieldByIndexLoop s first v [] = Inr v"
| "fieldByIndexLoop s first v (x # xs) =
     (case throughPointer s first v of
        Inl a \<Rightarrow> Inl a
      | Inr w \<Rightarrow>
          (case Value_Field w x of
             Inl a \<Rightarrow> Inl a
           | Inr u \<Rightarrow> fieldByIndexLoop s False u xs))"

definition Value_FieldByIndex :: "store \<Rightarrow> Value \<Rightarrow> nat list \<Rightarrow> abort + Value" where
  "Value_FieldByIndex s v index =
     (if length index = 1 then Value_Field v (hd index)
      else if Value_Kind v \<noteq> Struct
        then Inl (valueError ''reflect.Value.FieldByIndex'' (Value_Kind v))
      else fieldByIndexLoop s True v index)"

text \<open>
  \<^verbatim>\<open>Type.FieldByName\<close>. A field declared in the struct itself is found at once. Otherwise,
  when the struct embeds fields, \<^verbatim>\<open>FieldByNameFunc\<close> searches the embedded structs breadth
  first, one depth at a time: a name found twice at one depth, or in a struct type that
  is embedded twice at that depth, is found nowhere.
\<close>

type_synonym fieldScan = "gotype \<times> nat list"

record scanState =
  found :: "StructField option"
  nxt :: "fieldScan list"
  nextCount :: "gotype \<Rightarrow> nat"

definition embeddedStruct :: "fieldDecl \<times> gotype \<Rightarrow> gotype option" where
  "embeddedStruct d =
     (if declEmbedded (fst d) then
        (case (if kindOf (snd d) = Ptr then elemType (snd d) else Some (snd d)) of
           None \<Rightarrow> None
         | Some ntyp \<Rightarrow> if kindOf ntyp = Struct then Some ntyp else None)
      else None)"

fun scanFields ::
  "string \<Rightarrow> nat \<Rightarrow> nat list \<Rightarrow> (fieldDecl \<times> gotype) list \<Rightarrow> nat \<Rightarrow> scanState
     \<Rightarrow> scanState option" where
  "scanFields name c index [] i st = Some st"
| "scanFields name c index (d # ds) i st =
     (if declName (fst d) = name then
        (if c > 1 \<or> found st \<noteq> None then None
         else scanFields name c index ds (Suc i)
                (st\<lparr>found := Some (mkStructField d (index @ [i]))\<rparr>))
      else
        (case (if found st \<noteq> None then None else embeddedStruct d) of
           None \<Rightarrow> scanFields name c index ds (Suc i) st
         | Some styp \<Rightarrow>
             if nextCount st styp > 0
             then scanFields name c index ds (Suc i)
                    (st\<lparr>nextCount := (nextCount st)(styp := 2)\<rparr>)
             else scanFields name c index ds (Suc i)
                    (st\<lparr>nextCount := (nextCount st)(styp := (if c > 1 then 2 else 1)),
                        nxt := nxt st @ [(styp, index @ [i])]\<rparr>)))"

fun scanLevel ::
  "string \<Rightarrow> (gotype \<Rightarrow> nat) \<Rightarrow> fieldScan list \<Rightarrow> gotype list \<Rightarrow> scanState
     \<Rightarrow> (gotype list \<times> scanState) option" where
  "scanLevel name count [] visited st = Some (visited, st)"
| "scanLevel name count (scan # rest) visited st =
     (if fst scan \<in> set visited then scanLevel name count rest visited st
      else
        (case scanFields name (count (fst scan)) (snd scan) (structFields (fst scan)) 0 st of
           None \<Rightarrow> None
         | Some st' \<Rightarrow> scanLevel name count rest (fst scan # visited) st'))"

fun scanBound :: "fieldScan list \<Rightarrow> nat" where
  "scanBound [] = 0"
| "scanBound (scan # rest) = max (Suc (size (fst scan))) (scanBound rest)"

lemma size_structFields:
  "d \<in> set (structFields t) \<Longrightarrow> size (snd d) < size t"
proof (induction t)
  case (StructOf fds)
  then obtain a b where d: "d = (a, b)" and mem: "(a, b) \<in> set fds"
    by (cases d) auto
  from mem have "size b < Suc (size_list (size_prod (\<lambda>_. 0) size) fds)"
    by (induction fds) auto
  with d show ?case by simp
qed auto

lemma size_elemType: "elemType t = Some e \<Longrightarrow> size e < size t"
  by (induction t) auto

lemma size_embeddedStruct: "embeddedStruct d = Some u \<Longrightarrow> size u \<le> size (snd d)"
  by (auto simp: embeddedStruct_def split: if_splits option.splits dest: size_elemType)

lemma scanFields_nxt:
  "scanFields name c index ds i st = Some st' \<Longrightarrow> x \<in> set (nxt st') \<Longrightarrow>
     x \<in> set (nxt st) \<or> (\<exists>d \<in> set ds. size (fst x) \<le> size (snd d))"
proof (induction name c index ds i st arbitrary: st' rule: scanFields.induct)
  case (1 name c index i st)
  then show ?case by simp
next
  case (2 name c index d ds i st)
  show ?case
  proof (cases "declName (fst d) = name")
    case True
    with 2 show ?thesis by (fastforce split: if_splits)
  next
    case False
    show ?thesis
    proof (cases "if found st \<noteq> None then None else embeddedStruct d")
      case None
      with False 2 show ?thesis by (fastforce split: if_splits)
    next
      case (Some styp)
      then have emb: "embeddedStruct d = Some styp" by (simp split: if_splits)
      show ?thesis
      proof (cases "nextCount st styp > 0")
        case True
        with False Some 2 show ?thesis by (fastforce split: if_splits)
      next
        case nc: False
        from "2.IH"(4)[OF False Some nc] "2.prems" False Some nc
        have "x \<in> set (nxt st @ [(styp, index @ [i])]) \<or> (\<exists>d \<in> set ds. size (fst x) \<le> size (snd d))"
          by simp
        with size_embeddedStruct[OF emb] show ?thesis by auto
      qed
    qed
  qed
qed

lemma scanLevel_nxt:
  "scanLevel name count cur visited st = Some (visited', st') \<Longrightarrow> x \<in> set (nxt st') \<Longrightarrow>
     x \<in> set (nxt st) \<or> Suc (size (fst x)) < scanBound cur"
proof (induction name count cur visited st arbitrary: visited' st' rule: scanLevel.induct)
  case (1 name count visited st)
  then show ?case by simp
next
  case (2 name count scan rest visited st)
  show ?case
  proof (cases "fst scan \<in> set visited")
    case True
    with 2 show ?thesis by fastforce
  next
    case False
    with "2.prems" obtain st1 where
      sf: "scanFields name (count (fst scan)) (snd scan) (structFields (fst scan)) 0 st = Some st1"
      and sl: "scanLevel name count rest (fst scan # visited) st1 = Some (visited', st')"
      by (auto split: option.splits)
    from "2.IH"(2)[OF False sf sl "2.prems"(2)]
    consider "x \<in> set (nxt st1)" | "Suc (size (fst x)) < scanBound rest" by blast
    then show ?thesis
    proof cases
      case 1
      from scanFields_nxt[OF sf 1] show ?thesis
        by (auto dest!: size_structFields simp: less_max_iff_disj)
    next
      case 2
      then show ?thesis by (simp add: less_max_iff_disj)
    qed
  qed
qed

lemma scanBound_less:
  "\<forall>z \<in> set xs. Suc (size (fst z)) < n \<Longrightarrow> 0 < n \<Longrightarrow> scanBound xs < n"
  by (induction xs) auto

function fieldByNameLevels ::
  "string \<Rightarrow> fieldScan list \<Rightarrow> (gotype \<Rightarrow> nat) \<Rightarrow> gotype list \<Rightarrow> StructField option" where
  "fieldByNameLevels name next count visited =
     (if next = [] then None
      else
        (case scanLevel name count next visited \<lparr>found = None, nxt = [], nextCount = (\<lambda>t. 0)\<rparr> of
           None \<Rightarrow> None
         | Some (visited', st) \<Rightarrow>
             if found st \<noteq> None then found st
             else fieldByNameLevels name (nxt st) (nextCount st) visited'))"
  by pat_completeness auto
termination
proof (relation "measure (\<lambda>(name, next, count, visited). scanBound next)")
  show "wf (measure (\<lambda>(name, next, count, visited). scanBound next))" by simp
next
  fix name :: string and "next" :: "fieldScan list" and count :: "gotype \<Rightarrow> nat"
    and visited x2 :: "gotype list" and x y :: "gotype list \<times> scanState" and st :: scanState
  assume ne: "next \<noteq> []"
    and sl: "scanLevel name count next visited \<lparr>found = None, nxt = [], nextCount = (\<lambda>t. 0)\<rparr> = Some x"
    and x: "(x2, st) = x"
  from sl x have sl': "scanLevel name count next visited \<lparr>found = None, nxt = [], nextCount = (\<lambda>t. 0)\<rparr> = Some (x2, st)"
    by simp
  have all: "\<forall>z \<in> set (nxt st). Suc (size (fst z)) < scanBound next"
    using scanLevel_nxt[OF sl'] by auto
  have pos: "0 < scanBound next" using ne by (cases "next") auto
  have "scanBound (nxt st) < scanBound next"
    using all pos by (rule scanBound_less)
  then show "((name, nxt st, nextCount st, x2), name, next, count, visited)
      \<in> measure (\<lambda>(name, next, count, visited). scanBound next)"
    by simp
qed

declare fieldByNameLevels.simps [simp del]

fun quickCheck :: "string \<Rightarrow> (fieldDecl \<times> gotype) list \<Rightarrow> nat \<Rightarrow> StructField option" where
  "quickCheck name [] i = None"
| "quickCheck name (d # ds) i =
     (if declName (fst d) = name then Some (mkStructField d [i])
      else quickCheck name ds (Suc i))"

definition hasEmbeds :: "(fieldDecl \<times> gotype) list \<Rightarrow> bool" where
  "hasEmbeds ds = list_ex (\<lambda>d. declEmbedded (fst d)) ds"

definition structFieldByName :: "gotype \<Rightarrow> string \<Rightarrow> StructField option" where
  "structFieldByName t name =
     (if name = [] then None
      else
        (case quickCheck name (structFields t) 0 of
           Some f \<Rightarrow> Some f
         | None \<Rightarrow>
             if \<not> hasEmbeds (structFields t) then None
             else fieldByNameLevels name [(t, [])] (\<lambda>t. 0) []))"

definition Type_FieldByName :: "gotype \<Rightarrow> string \<Rightarrow> abort + StructField option" where
  "Type_FieldByName t name =
     (if kindOf t \<noteq> Struct then Inl (Panic ''reflect: FieldByName of non-struct type'')
      else Inr (structFieldByName t name))"

definition Value_FieldByName :: "store \<Rightarrow> Value \<Rightarrow> string \<Rightarrow> abort + Value" where
  "Value_FieldByName s v name =
     (case v of
        ZeroValue \<Rightarrow> Inl (valueError ''reflect.Value.FieldByName'' Invalid)
      | Val T st em d \<Rightarrow>
          if kindOf T \<noteq> Struct then Inl (valueError ''reflect.Value.FieldByName'' (kindOf T))
          else
            (case structFieldByName T name of
               Some f \<Rightarrow> Value_FieldByIndex s v (sf_Index f)
             | None \<Rightarrow> Inr ZeroValue))"

subsection \<open>reflect.DeepEqual\<close>

text \<open>
  Floats compare as IEEE-754 numbers: a NaN equals nothing and the two zeros are equal.
\<close>

definition float64_eq :: "64 word \<Rightarrow> 64 word \<Rightarrow> bool" where
  "float64_eq a b =
     (let nan = (\<lambda>w :: 64 word. and w 0x7FF0000000000000 = 0x7FF0000000000000
                                  \<and> and w 0x000FFFFFFFFFFFFF \<noteq> 0);
          zero = (\<lambda>w :: 64 word. and w 0x7FFFFFFFFFFFFFFF = 0)
      in \<not> nan a \<and> \<not> nan b \<and> (a = b \<or> (zero a \<and> zero b)))"

definition float32_eq :: "32 word \<Rightarrow> 32 word \<Rightarrow> bool" where
  "float32_eq a b =
     (let nan = (\<lambda>w :: 32 word. and w 0x7F800000 = 0x7F800000 \<and> and w 0x007FFFFF \<noteq> 0);
          zero = (\<lambda>w :: 32 word. and w 0x7FFFFFFF = 0)
      in \<not> nan a \<and> \<not> nan b \<and> (a = b \<or> (zero a \<and> zero b)))"

text \<open>
  \<^verbatim>\<open>deepValueEqual\<close> on two values of one type. Scalars compare by \<^verbatim>\<open>==\<close>; structs field by
  field and slices element by element, stopping at the first difference; a nil slice
  differs from an empty one; interfaces compare their dynamic types, then their values;
  pointers are equal when they are the same pointer and otherwise when their targets are
  deeply equal. Go ends the traversal of cyclic data with a table of visited pointers;
  here the number \<open>n\<close> bounds the pointer steps instead, and \<open>None\<close> is the answer when
  the bound is used up or the values have not the same shape.
\<close>

fun deepValueEqual :: "nat \<Rightarrow> store \<Rightarrow> goval \<Rightarrow> goval \<Rightarrow> bool option"
  and deepValueEquals :: "nat \<Rightarrow> store \<Rightarrow> goval list \<Rightarrow> goval list \<Rightarrow> bool option" where
  "deepValueEqual n s (VBool a) v2 = (case v2 of VBool b \<Rightarrow> Some (a = b) | _ \<Rightarrow> None)"
| "deepValueEqual n s (VInt a) v2 = (case v2 of VInt b \<Rightarrow> Some (a = b) | _ \<Rightarrow> None)"
| "deepValueEqual n s (VUint a) v2 = (case v2 of VUint b \<Rightarrow> Some (a = b) | _ \<Rightarrow> None)"
| "deepValueEqual n s (VFloat32 a) v2 =
     (case v2 of VFloat32 b \<Rightarrow> Some (float32_eq a b) | _ \<Rightarrow> None)"
| "deepValueEqual n s (VFloat64 a) v2 =
     (case v2 of VFloat64 b \<Rightarrow> Some (float64_eq a b) | _ \<Rightarrow> None)"
| "deepValueEqual n s (VString a) v2 = (case v2 of VString b \<Rightarrow> Some (a = b) | _ \<Rightarrow> None)"
| "deepValueEqual n s (VPtr p) v2 =
     (case v2 of
        VPtr q \<Rightarrow>
          if p = q then Some True
          else
            (case (p, q) of
               (Some l1, Some l2) \<Rightarrow>
                 (case n of
                    0 \<Rightarrow> None
                  | Suc m \<Rightarrow>
                      (case (readLoc s l1, readLoc s l2) of
                         (Some x, Some y) \<Rightarrow> deepValueEqual m s x y
                       | _ \<Rightarrow> None))
             | _ \<Rightarrow> Some False)
      | _ \<Rightarrow> None)"
| "deepValueEqual n s (VSlice xs) v2 =
     (case v2 of
        VSlice ys \<Rightarrow>
          (case (xs, ys) of
             (None, None) \<Rightarrow> Some True
           | (Some a, Some b) \<Rightarrow>
               if length a \<noteq> length b then Some False else deepValueEquals n s a b
           | _ \<Rightarrow> Some False)
      | _ \<Rightarrow> None)"
| "deepValueEqual n s (VStruct xs) v2 =
     (case v2 of VStruct ys \<Rightarrow> deepValueEquals n s xs ys | _ \<Rightarrow> None)"
| "deepValueEqual n s (VIface i) v2 =
     (case v2 of
        VIface j \<Rightarrow>
          (case (i, j) of
             (None, None) \<Rightarrow> Some True
           | (Some (T1, x), Some (T2, y)) \<Rightarrow>
               if T1 \<noteq> T2 then Some False else deepValueEqual n s x y
           | _ \<Rightarrow> Some False)
      | _ \<Rightarrow> None)"
| "deepValueEquals n s [] ys = (if ys = [] then Some True else None)"
| "deepValueEquals n s (x # xs) ys =
     (case ys of
        [] \<Rightarrow> None
      | y # ys' \<Rightarrow>
          (case deepValueEqual n s x y of
             None \<Rightarrow> None
           | Some False \<Rightarrow> Some False
           | Some True \<Rightarrow> deepValueEquals n s xs ys'))"

text \<open>
  \<^verbatim>\<open>reflect.DeepEqual(x, y)\<close>: when one of the two is the nil interface the answer is
  \<^verbatim>\<open>x == y\<close>; values of different types are never deeply equal.
\<close>

definition reflect_DeepEqual :: "nat \<Rightarrow> store \<Rightarrow> iface \<Rightarrow> iface \<Rightarrow> bool option" where
  "reflect_DeepEqual n s x y =
     (case (x, y) of
        (None, None) \<Rightarrow> Some True
      | (Some (T1, v1), Some (T2, v2)) \<Rightarrow>
          if T1 \<noteq> T2 then Some False else deepValueEqual n s v1 v2
      | _ \<Rightarrow> Some False)"

section \<open>field.go\<close>

text \<open>
  The two package-level errors, and the error \<^verbatim>\<open>fmt.Errorf\<close> builds, with its message.
\<close>

datatype error = errNotExported | errNotSettable | Errorf string

text \<open>
  \<^verbatim>\<open>type Field struct { value reflect.Value; field reflect.StructField }\<close>. The two fields
  are \<open>f_value\<close> and \<open>f_field\<close> here, and the method \<^verbatim>\<open>Field\<close> is \<open>Field'\<close>: Isabelle
  reserves the one name and HOL has a constant of the other.
\<close>

record Field =
  f_value :: Value
  f_field :: StructField


definition Value :: "Field \<Rightarrow> store \<Rightarrow> abort + iface" where
  "Value f s = Value_Interface s (f_value f)"


definition IsExported :: "Field \<Rightarrow> bool" where
  "IsExported f = (sf_PkgPath (f_field f) = [])"

text \<open>
  \<^verbatim>\<open>IsZero\<close>; \<open>n\<close> is the bound on pointer steps that \<open>reflect_DeepEqual\<close> takes.
\<close>

definition IsZero :: "nat \<Rightarrow> Field \<Rightarrow> store \<Rightarrow> abort + bool" where
  "IsZero n f s =
     (case Value_Type (f_value f) of
        Inl a \<Rightarrow> Inl a
      | Inr T \<Rightarrow>
     (case Value_Interface s (reflect_Zero T) of
        Inl a \<Rightarrow> Inl a
      | Inr zero \<Rightarrow>
     (case Value f s of
        Inl a \<Rightarrow> Inl a
      | Inr current \<Rightarrow>
     (case reflect_DeepEqual n s current zero of
        None \<Rightarrow> Inl Stuck
      | Some b \<Rightarrow> Inr b))))"

definition Name :: "Field \<Rightarrow> string" where
  "Name f = sf_Name (f_field f)"

definition Kind :: "Field \<Rightarrow> Kind" where
  "Kind f = Value_Kind (f_value f)"

text \<open>\<^verbatim>\<open>checkForSet\<close> returns the given value and the error; \<open>None\<close> is the nil error.\<close>

definition checkForSet :: "store \<Rightarrow> Field \<Rightarrow> Value \<Rightarrow> iface \<Rightarrow> abort + (Value \<times> error option)" where
  "checkForSet s f v val =
     (if \<not> IsExported f then Inr (ZeroValue, Some errNotExported)
      else if \<not> Value_CanSet v then Inr (ZeroValue, Some errNotSettable)
      else
        (let given = reflect_ValueOf val in
         if Value_Kind given = Ptr
         then (case Value_Elem s given of Inl a \<Rightarrow> Inl a | Inr g \<Rightarrow> Inr (g, None))
         else Inr (given, None)))"

text \<open>
  The setters return the error (or nil) and the store after the call.
\<close>

definition Set :: "Field \<Rightarrow> iface \<Rightarrow> store \<Rightarrow> abort + (error option \<times> store)" where
  "Set f val s =
     (case reflect_Indirect s (f_value f) of
        Inl a \<Rightarrow> Inl a
      | Inr v \<Rightarrow>
     (case checkForSet s f v val of
        Inl a \<Rightarrow> Inl a
      | Inr (given, Some err) \<Rightarrow> Inr (Some err, s)
      | Inr (given, None) \<Rightarrow>
          if Value_Kind v \<noteq> Value_Kind given then
            Inr (Some (Errorf (''wrong kind: '' @ kindString (Value_Kind given)
                               @ '' want: '' @ kindString (Value_Kind v))), s)
          else
            (case Value_Set s v given of
               Inl a \<Rightarrow> Inl a
             | Inr s' \<Rightarrow> Inr (None, s'))))"

definition SetInt :: "Field \<Rightarrow> 64 word \<Rightarrow> store \<Rightarrow> abort + (error option \<times> store)" where
  "SetInt f val s =
     (case reflect_Indirect s (f_value f) of
        Inl a \<Rightarrow> Inl a
      | Inr v \<Rightarrow>
     (case checkForSet s f v (Some (Basic TInt64, VInt val)) of
        Inl a \<Rightarrow> Inl a
      | Inr (given, Some err) \<Rightarrow> Inr (Some err, s)
      | Inr (given, None) \<Rightarrow>
          (case Value_SetInt s v val of
             Inl a \<Rightarrow> Inl a
           | Inr s' \<Rightarrow> Inr (None, s'))))"

definition SetFloat ::
  "(64 word \<Rightarrow> 32 word) \<Rightarrow> Field \<Rightarrow> 64 word \<Rightarrow> store \<Rightarrow> abort + (error option \<times> store)" where
  "SetFloat float32 f val s =
     (case reflect_Indirect s (f_value f) of
        Inl a \<Rightarrow> Inl a
      | Inr v \<Rightarrow>
     (case checkForSet s f v (Some (Basic TFloat64, VFloat64 val)) of
        Inl a \<Rightarrow> Inl a
      | Inr (given, Some err) \<Rightarrow> Inr (Some err, s)
      | Inr (given, None) \<Rightarrow>
          (case Value_SetFloat float32 s v val of
             Inl a \<Rightarrow> Inl a
           | Inr s' \<Rightarrow> Inr (None, s'))))"

definition SetUint :: "Field \<Rightarrow> 64 word \<Rightarrow> store \<Rightarrow> abort + (error option \<times> store)" where
  "SetUint f val s =
     (case reflect_Indirect s (f_value f) of
        Inl a \<Rightarrow> Inl a
      | Inr v \<Rightarrow>
     (case checkForSet s f v (Some (Basic TUint64, VUint val)) of
        Inl a \<Rightarrow> Inl a
      | Inr (given, Some err) \<Rightarrow> Inr (Some err, s)
      | Inr (given, None) \<Rightarrow>
          (case Value_SetUint s v val of
             Inl a \<Rightarrow> Inl a
           | Inr s' \<Rightarrow> Inr (None, s'))))"

text \<open>
  Modelled from the spec: \<^verbatim>\<open>getFields\<close>, which \<^verbatim>\<open>Fields\<close> calls and \<^verbatim>\<open>field.go\<close> does not
  define. The spec (4.4): it "enumerates the sub-fields of the field's current value, which
  must itself be record-shaped; produces one Field per declared sub-field, in declaration
  order. Fails (fatal, not recoverable) if the value is not exported or not
  record-shaped."
\<close>

fun fieldsFrom :: "Value \<Rightarrow> (fieldDecl \<times> gotype) list \<Rightarrow> nat \<Rightarrow> abort + Field list" where
  "fieldsFrom v [] i = Inr []"
| "fieldsFrom v (d # ds) i =
     (case Value_Field v i of
        Inl a \<Rightarrow> Inl a
      | Inr fv \<Rightarrow>
          (case fieldsFrom v ds (Suc i) of
             Inl a \<Rightarrow> Inl a
           | Inr fs \<Rightarrow> Inr (\<lparr>f_value = fv, f_field = mkStructField d [i]\<rparr> # fs)))"

definition getFields :: "Value \<Rightarrow> abort + Field list" where
  "getFields v =
     (if flagRO v then Inl (Panic ''not exported'')
      else if Value_Kind v \<noteq> Struct then Inl (Panic ''not struct'')
      else (case v of
              ZeroValue \<Rightarrow> Inl (Panic ''not struct'')
            | Val T st em d \<Rightarrow> fieldsFrom v (structFields T) 0))"

definition Fields :: "Field \<Rightarrow> abort + Field list" where
  "Fields f = getFields (f_value f)"

text \<open>
  Modelled from the spec: \<^verbatim>\<open>strctVal\<close>, which \<^verbatim>\<open>FieldOk\<close> calls and \<^verbatim>\<open>field.go\<close> does not
  define. The spec (4.4): the lookup "requires the value to be record-shaped and exported;
  violating that is fatal"; the exported part is the panic of \<^verbatim>\<open>Value.Interface\<close> before
  the call.
\<close>

definition strctVal :: "iface \<Rightarrow> abort + Value" where
  "strctVal i =
     (let v = reflect_ValueOf i in
      if Value_Kind v \<noteq> Struct then Inl (Panic ''not struct'') else Inr v)"

definition FieldOk :: "Field \<Rightarrow> string \<Rightarrow> store \<Rightarrow> abort + Field option" where
  "FieldOk f name s =
     (case Value_Interface s (f_value f) of
        Inl a \<Rightarrow> Inl a
      | Inr i \<Rightarrow>
     (case strctVal i of
        Inl a \<Rightarrow> Inl a
      | Inr v \<Rightarrow>
     (case Value_Type v of
        Inl a \<Rightarrow> Inl a
      | Inr t \<Rightarrow>
     (case Type_FieldByName t name of
        Inl a \<Rightarrow> Inl a
      | Inr None \<Rightarrow> Inr None
      | Inr (Some field) \<Rightarrow>
          (case Value_FieldByName s v name of
             Inl a \<Rightarrow> Inl a
           | Inr fv \<Rightarrow> Inr (Some \<lparr>f_value = fv, f_field = field\<rparr>))))))"

definition Field' :: "Field \<Rightarrow> string \<Rightarrow> store \<Rightarrow> abort + Field" where
  "Field' f name s =
     (case FieldOk f name s of
        Inl a \<Rightarrow> Inl a
      | Inr None \<Rightarrow> Inl (Panic ''field not found'')
      | Inr (Some field) \<Rightarrow> Inr field)"

subsection \<open>The methods on their receiver\<close>

text \<open>
  Every method has the receiver \<^verbatim>\<open>f *Field\<close>: it could assign to \<^verbatim>\<open>f.value\<close> and \<^verbatim>\<open>f.field\<close>.
  Here the methods are embedded once more, on a state that holds the Field the receiver
  points to beside the store, each returning its result, or the panic, with the state
  it leaves; a panic leaves the state of the moment it is raised. \<^verbatim>\<open>checkForSet\<close> is
  such a method too, and \<^verbatim>\<open>Set\<close>, \<^verbatim>\<open>IsZero\<close> and \<^verbatim>\<open>Field\<close> go on in the state that the method
  they call returns. The Field itself is no part of the store: a Field kept inside the
  record it refers to is outside the model.
\<close>

record machine =
  recv :: Field
  mem :: store

definition Tag_m ::
  "(string \<Rightarrow> string \<Rightarrow> string) \<Rightarrow> string \<Rightarrow> machine \<Rightarrow> (abort + string) \<times> machine" where
  "Tag_m get key st = (Inr (get (sf_Tag (f_field (recv st))) key), st)"

definition Value_m :: "machine \<Rightarrow> (abort + iface) \<times> machine" where
  "Value_m st = (Value_Interface (mem st) (f_value (recv st)), st)"

definition IsEmbedded_m :: "machine \<Rightarrow> (abort + bool) \<times> machine" where
  "IsEmbedded_m st = (Inr (sf_Anonymous (f_field (recv st))), st)"

definition IsExported_m :: "machine \<Rightarrow> (abort + bool) \<times> machine" where
  "IsExported_m st = (Inr (sf_PkgPath (f_field (recv st)) = []), st)"

definition IsZero_m :: "nat \<Rightarrow> machine \<Rightarrow> (abort + bool) \<times> machine" where
  "IsZero_m n st =
     (case Value_Type (f_value (recv st)) of
        Inl a \<Rightarrow> (Inl a, st)
      | Inr T \<Rightarrow>
     (case Value_Interface (mem st) (reflect_Zero T) of
        Inl a \<Rightarrow> (Inl a, st)
      | Inr zero \<Rightarrow>
     (case Value_m st of
        (Inl a, st1) \<Rightarrow> (Inl a, st1)
      | (Inr current, st1) \<Rightarrow>
     (case reflect_DeepEqual n (mem st1) current zero of
        None \<Rightarrow> (Inl Stuck, st1)
      | Some b \<Rightarrow> (Inr b, st1)))))"

definition Name_m :: "machine \<Rightarrow> (abort + string) \<times> machine" where
  "Name_m st = (Inr (sf_Name (f_field (recv st))), st)"

definition Kind_m :: "machine \<Rightarrow> (abort + Kind) \<times> machine" where
  "Kind_m st = (Inr (Value_Kind (f_value (recv st))), st)"

definition checkForSet_m ::
  "Value \<Rightarrow> iface \<Rightarrow> machine \<Rightarrow> (abort + (Value \<times> error option)) \<times> machine" where
  "checkForSet_m v val st =
     (case IsExported_m st of
        (Inl a, st1) \<Rightarrow> (Inl a, st1)
      | (Inr exported, st1) \<Rightarrow>
          if \<not> exported then (Inr (ZeroValue, Some errNotExported), st1)
          else if \<not> Value_CanSet v then (Inr (ZeroValue, Some errNotSettable), st1)
          else
            (let given = reflect_ValueOf val in
             if Value_Kind given = Ptr
             then (case Value_Elem (mem st1) given of
                     Inl a \<Rightarrow> (Inl a, st1)
                   | Inr g \<Rightarrow> (Inr (g, None), st1))
             else (Inr (given, None), st1)))"

definition Set_m :: "iface \<Rightarrow> machine \<Rightarrow> (abort + error option) \<times> machine" where
  "Set_m val st =
     (case reflect_Indirect (mem st) (f_value (recv st)) of
        Inl a \<Rightarrow> (Inl a, st)
      | Inr v \<Rightarrow>
     (case checkForSet_m v val st of
        (Inl a, st1) \<Rightarrow> (Inl a, st1)
      | (Inr (given, Some err), st1) \<Rightarrow> (Inr (Some err), st1)
      | (Inr (given, None), st1) \<Rightarrow>
          if Value_Kind v \<noteq> Value_Kind given then
            (Inr (Some (Errorf (''wrong kind: '' @ kindString (Value_Kind given)
                                @ '' want: '' @ kindString (Value_Kind v)))), st1)
          else
            (case Value_Set (mem st1) v given of
               Inl a \<Rightarrow> (Inl a, st1)
             | Inr s' \<Rightarrow> (Inr None, st1\<lparr>mem := s'\<rparr>))))"

definition SetInt_m :: "64 word \<Rightarrow> machine \<Rightarrow> (abort + error option) \<times> machine" where
  "SetInt_m val st =
     (case reflect_Indirect (mem st) (f_value (recv st)) of
        Inl a \<Rightarrow> (Inl a, st)
      | Inr v \<Rightarrow>
     (case checkForSet_m v (Some (Basic TInt64, VInt val)) st of
        (Inl a, st1) \<Rightarrow> (Inl a, st1)
      | (Inr (given, Some err), st1) \<Rightarrow> (Inr (Some err), st1)
      | (Inr (given, None), st1) \<Rightarrow>
          (case Value_SetInt (mem st1) v val of
             Inl a \<Rightarrow> (Inl a, st1)
           | Inr s' \<Rightarrow> (Inr None, st1\<lparr>mem := s'\<rparr>))))"

definition SetFloat_m ::
  "(64 word \<Rightarrow> 32 word) \<Rightarrow> 64 word \<Rightarrow> machine \<Rightarrow> (abort + error option) \<times> machine" where
  "SetFloat_m float32 val st =
     (case reflect_Indirect (mem st) (f_value (recv st)) of
        Inl a \<Rightarrow> (Inl a, st)
      | Inr v \<Rightarrow>
     (case checkForSet_m v (Some (Basic TFloat64, VFloat64 val)) st of
        (Inl a, st1) \<Rightarrow> (Inl a, st1)
      | (Inr (given, Some err), st1) \<Rightarrow> (Inr (Some err), st1)
      | (Inr (given, None), st1) \<Rightarrow>
          (case Value_SetFloat float32 (mem st1) v val of
             Inl a \<Rightarrow> (Inl a, st1)
           | Inr s' \<Rightarrow> (Inr None, st1\<lparr>mem := s'\<rparr>))))"

definition SetUint_m :: "64 word \<Rightarrow> machine \<Rightarrow> (abort + error option) \<times> machine" where
  "SetUint_m val st =
     (case reflect_Indirect (mem st) (f_value (recv st)) of
        Inl a \<Rightarrow> (Inl a, st)
      | Inr v \<Rightarrow>
     (case checkForSet_m v (Some (Basic TUint64, VUint val)) st of
        (Inl a, st1) \<Rightarrow> (Inl a, st1)
      | (Inr (given, Some err), st1) \<Rightarrow> (Inr (Some err), st1)
      | (Inr (given, None), st1) \<Rightarrow>
          (case Value_SetUint (mem st1) v val of
             Inl a \<Rightarrow> (Inl a, st1)
           | Inr s' \<Rightarrow> (Inr None, st1\<lparr>mem := s'\<rparr>))))"

definition Fields_m :: "machine \<Rightarrow> (abort + Field list) \<times> machine" where
  "Fields_m st = (getFields (f_value (recv st)), st)"

definition FieldOk_m :: "string \<Rightarrow> machine \<Rightarrow> (abort + Field option) \<times> machine" where
  "FieldOk_m name st =
     (case Value_Interface (mem st) (f_value (recv st)) of
        Inl a \<Rightarrow> (Inl a, st)
      | Inr i \<Rightarrow>
     (case strctVal i of
        Inl a \<Rightarrow> (Inl a, st)
      | Inr v \<Rightarrow>
     (case Value_Type v of
        Inl a \<Rightarrow> (Inl a, st)
      | Inr t \<Rightarrow>
     (case Type_FieldByName t name of
        Inl a \<Rightarrow> (Inl a, st)
      | Inr None \<Rightarrow> (Inr None, st)
      | Inr (Some field) \<Rightarrow>
          (case Value_FieldByName (mem st) v name of
             Inl a \<Rightarrow> (Inl a, st)
           | Inr fv \<Rightarrow> (Inr (Some \<lparr>f_value = fv, f_field = field\<rparr>), st))))))"

definition Field_m :: "string \<Rightarrow> machine \<Rightarrow> (abort + Field) \<times> machine" where
  "Field_m name st =
     (case FieldOk_m name st of
        (Inl a, st1) \<Rightarrow> (Inl a, st1)
      | (Inr None, st1) \<Rightarrow> (Inl (Panic ''field not found''), st1)
      | (Inr (Some field), st1) \<Rightarrow> (Inr field, st1))"

section \<open>Reading the claims\<close>

text \<open>
  A Value is backed by the store when its data can be read and has the shape of its
  type; an interface value passed to \<^verbatim>\<open>Set\<close> is well formed when its dynamic type is
  not itself an interface type and its value has that type.
\<close>

definition valueOk :: "store \<Rightarrow> Value \<Rightarrow> bool" where
  "valueOk s v =
     (case v of
        ZeroValue \<Rightarrow> True
      | Val T st em d \<Rightarrow> (case load s d of None \<Rightarrow> False | Some y \<Rightarrow> hasType T y))"

definition ifaceOk :: "iface \<Rightarrow> bool" where
  "ifaceOk val = (case val of None \<Rightarrow> True | Some (T, x) \<Rightarrow> kindOf T \<noteq> Interface \<and> hasType T x)"

text \<open>
  A field is settable when the check of \<^verbatim>\<open>checkForSet\<close> passes: the Value that
  \<^verbatim>\<open>reflect.Indirect\<close> makes of the field's Value can be set.
\<close>

definition settable :: "store \<Rightarrow> Field \<Rightarrow> bool" where
  "settable s f =
     (case reflect_Indirect s (f_value f) of Inl a \<Rightarrow> False | Inr v \<Rightarrow> Value_CanSet v)"

text \<open>
  The dynamic kind of an incoming value after one level of dereferencing: the kind of
  its type, or for a pointer the kind of what it points to, \<open>Invalid\<close> for nil.
\<close>

definition derefKind :: "iface \<Rightarrow> Kind" where
  "derefKind val =
     (case val of
        None \<Rightarrow> Invalid
      | Some (T, x) \<Rightarrow>
          if kindOf T = Ptr
          then (case (x, elemType T) of (VPtr (Some l), Some E) \<Rightarrow> kindOf E | _ \<Rightarrow> Invalid)
          else kindOf T)"

text \<open>
  A Field is well formed when its Value is a field of a struct (never the zero Value) and
  is read-only exactly when the descriptor says the field is not exported. Every Field
  the package builds is: its Value comes from \<^verbatim>\<open>Value.Field\<close> or \<^verbatim>\<open>Value.FieldByName\<close> on a
  struct Value that carries no read-only flag, its descriptor from the struct type.
\<close>

definition wfField :: "Field \<Rightarrow> bool" where
  "wfField f = (f_value f \<noteq> ZeroValue \<and> (flagRO (f_value f) \<longleftrightarrow> \<not> IsExported f))"

text \<open>
  For the proof that the package builds well-formed Fields: the struct type that a path
  of field indices reaches through embedded structs; the descriptors that the field
  lookup of a struct type can return, each a field of a struct so reached; and the types
  of the Values met on the way, an embedded struct or a pointer to one.
\<close>

fun reaches :: "gotype \<Rightarrow> nat list \<Rightarrow> gotype option" where
  "reaches t [] = Some t"
| "reaches t (i # is) =
     (if i < length (structFields t)
      then (case embeddedStruct (structFields t ! i) of
              None \<Rightarrow> None
            | Some u \<Rightarrow> reaches u is)
      else None)"

definition resolves :: "gotype \<Rightarrow> StructField \<Rightarrow> bool" where
  "resolves t fld =
     (\<exists>idx u i. reaches t idx = Some u \<and> i < length (structFields u)
                \<and> fld = mkStructField (structFields u ! i) (idx @ [i]))"

definition covers :: "gotype \<Rightarrow> gotype \<Rightarrow> bool" where
  "covers V u = (kindOf u = Struct \<and> (V = u \<or> (kindOf V = Ptr \<and> elemType V = Some u)))"

text \<open>
  The zero values, by their shape: false, 0, a float equal to 0, the empty string, a
  nil pointer, slice or interface, a struct of zero values.
\<close>

fun isZeroValue :: "goval \<Rightarrow> bool" where
  "isZeroValue (VBool b) = (\<not> b)"
| "isZeroValue (VInt w) = (w = 0)"
| "isZeroValue (VUint w) = (w = 0)"
| "isZeroValue (VFloat32 w) = float32_eq w 0"
| "isZeroValue (VFloat64 w) = float64_eq w 0"
| "isZeroValue (VString x) = (x = [])"
| "isZeroValue (VPtr p) = (p = None)"
| "isZeroValue (VSlice xs) = (xs = None)"
| "isZeroValue (VStruct vs) = list_all isZeroValue vs"
| "isZeroValue (VIface i) = (i = None)"

text \<open>The names a struct type declares itself.\<close>

definition declaredNames :: "gotype \<Rightarrow> string list" where
  "declaredNames T = map (\<lambda>d. declName (fst d)) (structFields T)"

text \<open>
  Sequences of calls of the public operations on one receiver. A call goes on in the
  state the method returns; a panic ends the sequence.
\<close>

datatype op =
    OpTag string | OpName | OpKind | OpIsEmbedded | OpIsExported | OpValue | OpIsZero
  | OpSet iface | OpSetInt "64 word" | OpSetFloat "64 word" | OpSetUint "64 word"
  | OpFields | OpField string | OpFieldOk string


definition outcome :: "(abort + 'a) \<times> machine \<Rightarrow> abort option \<times> machine" where
  "outcome r = (case r of (Inl a, st) \<Rightarrow> (Some a, st) | (Inr x, st) \<Rightarrow> (None, st))"

fun call ::
  "(string \<Rightarrow> string \<Rightarrow> string) \<Rightarrow> (64 word \<Rightarrow> 32 word) \<Rightarrow> nat \<Rightarrow> op \<Rightarrow> machine
     \<Rightarrow> abort option \<times> machine" where
  "call get float32 n (OpTag key) st = outcome (Tag_m get key st)"
| "call get float32 n OpName st = outcome (Name_m st)"
| "call get float32 n OpKind st = outcome (Kind_m st)"
| "call get float32 n OpIsEmbedded st = outcome (IsEmbedded_m st)"
| "call get float32 n OpIsExported st = outcome (IsExported_m st)"
| "call get float32 n OpValue st = outcome (Value_m st)"
| "call get float32 n OpIsZero st = outcome (IsZero_m n st)"
| "call get float32 n (OpSet val) st = outcome (Set_m val st)"
| "call get float32 n (OpSetInt i) st = outcome (SetInt_m i st)"
| "call get float32 n (OpSetFloat x) st = outcome (SetFloat_m float32 x st)"
| "call get float32 n (OpSetUint u) st = outcome (SetUint_m u st)"
| "call get float32 n OpFields st = outcome (Fields_m st)"
| "call get float32 n (OpField name) st = outcome (Field_m name st)"
| "call get float32 n (OpFieldOk name) st = outcome (FieldOk_m name st)"




subsection \<open>Example data\<close>

text \<open>
  The struct \<^verbatim>\<open>struct { A int; d int; P *int; S string }\<close> of package \<^verbatim>\<open>main\<close>, allocated at
  address 0 with \<^verbatim>\<open>A = 1\<close>, \<^verbatim>\<open>d = 5\<close>, \<^verbatim>\<open>P\<close> pointing to an \<^verbatim>\<open>int\<close> 5 at address 1 and \<^verbatim>\<open>S = "x"\<close>;
  an \<^verbatim>\<open>int\<close> 7 at address 2 and a pointer to it at address 3. The Fields are the ones the
  package builds for a pointer to the struct.
\<close>

definition decl :: "string \<Rightarrow> string \<Rightarrow> bool \<Rightarrow> fieldDecl" where
  "decl name pkg emb = \<lparr>declName = name, declPkgPath = pkg, declTag = [], declEmbedded = emb\<rparr>"

definition exStore :: store where
  "exStore = [0 \<mapsto> VStruct [VInt 1, VInt 5, VPtr (Some (1, [])), VString ''x''], 1 \<mapsto> VInt 5,
              2 \<mapsto> VInt 7, 3 \<mapsto> VPtr (Some (2, []))]"

definition exFieldA :: Field where
  "exFieldA = \<lparr>f_value = Val (Basic TInt) False False (At (0, [0])),
                f_field = mkStructField (decl ''A'' [] False, Basic TInt) [0]\<rparr>"

definition exFieldd :: Field where
  "exFieldd = \<lparr>f_value = Val (Basic TInt) True False (At (0, [1])),
                f_field = mkStructField (decl ''d'' ''main'' False, Basic TInt) [1]\<rparr>"

definition exFieldP :: Field where
  "exFieldP = \<lparr>f_value = Val (PtrTo (Basic TInt)) False False (At (0, [2])),
                f_field = mkStructField (decl ''P'' [] False, PtrTo (Basic TInt)) [2]\<rparr>"

definition exFieldS :: Field where
  "exFieldS = \<lparr>f_value = Val (Basic TString) False False (At (0, [3])),
                f_field = mkStructField (decl ''S'' [] False, Basic TString) [3]\<rparr>"

text \<open>
  A struct that embeds another: \<^verbatim>\<open>type Inner struct { X int }\<close> and
  \<^verbatim>\<open>struct { Inner; Y string }\<close>, and \<^verbatim>\<open>struct { *Inner }\<close> holding a nil pointer. The Fields
  hold their values as copies, as the Fields that \<^verbatim>\<open>FieldOk\<close> returns do.
\<close>

definition exInner :: gotype where
  "exInner = Named ''Inner'' (StructOf [(decl ''X'' [] False, Basic TInt)])"

definition exOuter :: gotype where
  "exOuter = StructOf [(decl ''Inner'' [] True, exInner), (decl ''Y'' [] False, Basic TString)]"

definition exOuterPtr :: gotype where
  "exOuterPtr = StructOf [(decl ''Inner'' [] True, PtrTo exInner)]"

definition exFieldI :: Field where
  "exFieldI = \<lparr>f_value = Val exInner False False (Held (VStruct [VInt 3])),
                f_field = mkStructField (decl ''I'' [] False, exInner) [0]\<rparr>"

definition exFieldO :: Field where
  "exFieldO = \<lparr>f_value = Val exOuter False False (Held (VStruct [VStruct [VInt 3], VString ''y''])),
                f_field = mkStructField (decl ''O'' [] False, exOuter) [0]\<rparr>"

definition exFieldOP :: Field where
  "exFieldOP = \<lparr>f_value = Val exOuterPtr False False (Held (VStruct [VPtr None])),
                 f_field = mkStructField (decl ''OP'' [] False, exOuterPtr) [0]\<rparr>"

section \<open>Proofs\<close>

subsection \<open>The store and the reflect package\<close>

lemma readPath_writePath:
  "writePath v p x = Some w \<Longrightarrow> readPath w p = Some x"
proof (induction v p x arbitrary: w rule: writePath.induct)
  case (1 v x)
  then show ?case by simp
next
  case (2 vs i p x)
  then show ?case by (auto split: if_splits option.splits)
qed simp_all

lemma readLoc_writeLoc:
  "writeLoc s l x = Some s' \<Longrightarrow> readLoc s' l = Some x"
  by (auto simp: writeLoc_def readLoc_def readPath_writePath split: option.splits)

lemma basicKind_simps [simp]:
  "basicKind b \<noteq> Ptr" "basicKind b \<noteq> Struct" "basicKind b \<noteq> Interface"
  "basicKind b \<noteq> Slice" "basicKind b \<noteq> Invalid"
  by (cases b; simp)+

lemma kindOf_valid [simp]: "kindOf T \<noteq> Invalid"
  by (induction T) auto

lemma hasType_Ptr: "kindOf T = Ptr \<Longrightarrow> hasType T y \<Longrightarrow> \<exists>p. y = VPtr p"
  by (induction T) (auto split: goval.splits)

lemma elemType_Ptr: "kindOf T = Ptr \<Longrightarrow> \<exists>E. elemType T = Some E"
  by (induction T) auto

lemma Indirect_valueOk:
  assumes "valueOk s v"
  shows "\<exists>w. reflect_Indirect s v = Inr w"
proof (cases v)
  case ZeroValue
  then show ?thesis by (simp add: reflect_Indirect_def Value_Kind_def)
next
  case (Val T st em d)
  show ?thesis
  proof (cases "kindOf T = Ptr")
    case True
    from assms Val obtain y where y: "load s d = Some y" "hasType T y"
      by (auto simp: valueOk_def split: option.splits)
    from hasType_Ptr[OF True y(2)] obtain p where p: "y = VPtr p" by blast
    from elemType_Ptr[OF True] obtain E where E: "elemType T = Some E" by blast
    show ?thesis using Val True y p E
      by (cases p) (auto simp: reflect_Indirect_def Value_Kind_def Value_Elem_def)
  next
    case False
    then show ?thesis using Val by (simp add: reflect_Indirect_def Value_Kind_def)
  qed
qed

lemma Indirect_not_Ptr: "Value_Kind v \<noteq> Ptr \<Longrightarrow> reflect_Indirect s v = Inr v"
  by (simp add: reflect_Indirect_def)

lemma CanSet_cases:
  "Value_CanSet v \<Longrightarrow> \<exists>T l. v = Val T False False (At l)"
  by (cases v) (auto simp: Value_CanSet_def flagAddr_def flagRO_def split: storage.splits)

text \<open>
  What \<^verbatim>\<open>reflect.Indirect\<close> makes of a Value that can be set can be set as well, unless it is
  the zero Value, which it is for a nil pointer.
\<close>

lemma CanSet_Indirect:
  assumes "reflect_Indirect s w = Inr v" and "Value_CanSet w" and "v \<noteq> ZeroValue"
  shows "Value_CanSet v"
proof -
  from CanSet_cases[OF assms(2)] obtain T l where w: "w = Val T False False (At l)" by blast
  show ?thesis
  proof (cases "kindOf T = Ptr")
    case True
    with assms(1,3) w show ?thesis
      by (auto simp: reflect_Indirect_def Value_Kind_def Value_Elem_def Value_CanSet_def
          flagAddr_def flagRO_def split: option.splits goval.splits)
  next
    case False
    with assms(1,2) w show ?thesis by (simp add: reflect_Indirect_def Value_Kind_def)
  qed
qed

lemma checkForSet_given:
  assumes "IsExported f" "Value_CanSet v" "ifaceOk val"
  shows "\<exists>g. checkForSet s f v val = Inr (g, None) \<and> Value_Kind g = derefKind val
             \<and> (g = ZeroValue \<or> \<not> flagRO g)"
proof (cases val)
  case None
  then show ?thesis using assms
    by (simp add: checkForSet_def reflect_ValueOf_def Value_Kind_def derefKind_def)
next
  case (Some a)
  obtain T x where a: "a = (T, x)" by (cases a)
  with Some assms(3) have ht: "hasType T x" by (simp add: ifaceOk_def)
  show ?thesis
  proof (cases "kindOf T = Ptr")
    case True
    from hasType_Ptr[OF True ht] obtain p where p: "x = VPtr p" by blast
    from elemType_Ptr[OF True] obtain E where E: "elemType T = Some E" by blast
    show ?thesis using Some a True p E assms(1,2)
      by (cases p)
         (auto simp: checkForSet_def reflect_ValueOf_def Value_Kind_def derefKind_def
                     Value_Elem_def load_def flagRO_def)
  next
    case False
    then show ?thesis using Some a assms(1,2)
      by (auto simp: checkForSet_def reflect_ValueOf_def Value_Kind_def derefKind_def flagRO_def)
  qed
qed

lemma writePath_ok: "readPath v p = Some y \<Longrightarrow> \<exists>w. writePath v p x = Some w"
proof (induction v p x arbitrary: y rule: writePath.induct)
  case (2 vs i p x)
  then show ?case by (auto split: if_splits)
qed simp_all

lemma writeLoc_ok: "readLoc s l = Some y \<Longrightarrow> \<exists>s'. writeLoc s l x = Some s'"
  by (auto simp: readLoc_def writeLoc_def split: option.splits dest: writePath_ok[where x = x])

lemma hasType_Interface: "kindOf T = Interface \<Longrightarrow> hasType T y \<Longrightarrow> \<exists>i. y = VIface i"
  by (induction T) (auto split: goval.splits)

lemma zeroVal_Interface: "kindOf T = Interface \<Longrightarrow> zeroVal T = VIface None"
  by (induction T) auto

lemma hasTypes_length: "hasTypes fds vs \<Longrightarrow> length vs = length fds"
  by (induction fds arbitrary: vs) (auto split: list.splits)

lemma hasType_Struct:
  "kindOf T = Struct \<Longrightarrow> hasType T y \<Longrightarrow> \<exists>vs. y = VStruct vs \<and> length vs = length (structFields T)"
  by (induction T) (auto split: goval.splits dest: hasTypes_length)

text \<open>
  Against a zero value \<open>deepValueEqual\<close> follows no pointer: it answers for every bound,
  and the answer is whether the value is zero by its shape.
\<close>

lemma deepValueEqual_basic:
  "basicHas b v \<Longrightarrow> deepValueEqual n s v (zeroVal (Basic b)) = Some (isZeroValue v)"
  by (cases b; cases v) (auto simp: basicHas_def)

lemma deepValueEqual_zero:
  "hasType T y \<Longrightarrow> deepValueEqual n s y (zeroVal T) = Some (isZeroValue y)"
  "hasTypes fds vs \<Longrightarrow>
     deepValueEquals n s vs (map (\<lambda>fd. zeroVal (snd fd)) fds) = Some (list_all isZeroValue vs)"
  "hasTypeAll T vs \<Longrightarrow> True"
proof (induction T y and fds vs and T vs rule: hasType_hasTypes_hasTypeAll.induct)
  case (1 b v)
  then show ?case by (simp add: deepValueEqual_basic)
next
  case (6 v)
  then show ?case by (auto split: goval.splits option.splits)
next
  case (8 fd fds vs)
  then show ?case by (cases vs) (auto split: goval.splits option.splits bool.splits)
qed (auto split: goval.splits option.splits)

lemma IsZero_result:
  assumes "IsExported f" and "wfField f" and "f_value f = Val T st em d"
    and "load s d = Some y" and "hasType T y"
  shows "IsZero n f s = Inr (isZeroValue y)"
proof -
  from assms(1,2,3) have ro: "\<not> st" "\<not> em" by (auto simp: wfField_def flagRO_def)
  have de: "deepValueEqual n s y (zeroVal T) = Some (isZeroValue y)"
    by (rule deepValueEqual_zero(1)[OF assms(5)])
  show ?thesis
  proof (cases "kindOf T = Interface")
    case True
    from hasType_Interface[OF True assms(5)] obtain i where i: "y = VIface i" by blast
    show ?thesis using True i ro assms(3,4) zeroVal_Interface[OF True]
      by (cases i)
         (auto simp: IsZero_def Value_Type_def Value_def Value_Interface_def reflect_Zero_def
                     load_def reflect_DeepEqual_def)
  next
    case False
    then show ?thesis using ro assms(3,4) de
      by (auto simp: IsZero_def Value_Type_def Value_def Value_Interface_def reflect_Zero_def
                     load_def reflect_DeepEqual_def)
  qed
qed

lemma quickCheck_None:
  "name \<notin> set (map (\<lambda>d. declName (fst d)) ds) \<Longrightarrow> quickCheck name ds i = None"
  by (induction ds arbitrary: i) auto

lemma quickCheck_found:
  "name \<in> set (map (\<lambda>d. declName (fst d)) ds) \<Longrightarrow>
     \<exists>j < length ds. quickCheck name ds i = Some (mkStructField (ds ! j) [i + j])
                    \<and> declName (fst (ds ! j)) = name"
proof (induction ds arbitrary: i)
  case Nil
  then show ?case by simp
next
  case (Cons d ds)
  show ?case
  proof (cases "declName (fst d) = name")
    case True
    then have "quickCheck name (d # ds) i = Some (mkStructField ((d # ds) ! 0) [i + 0])
               \<and> declName (fst ((d # ds) ! 0)) = name" by simp
    then show ?thesis by blast
  next
    case False
    with Cons.prems have "name \<in> set (map (\<lambda>d. declName (fst d)) ds)" by auto
    from Cons.IH[OF this, of "Suc i"] obtain j where
      j: "j < length ds" "quickCheck name ds (Suc i) = Some (mkStructField (ds ! j) [Suc i + j])"
         "declName (fst (ds ! j)) = name" by blast
    then have "Suc j < length (d # ds) \<and>
               quickCheck name (d # ds) i = Some (mkStructField ((d # ds) ! Suc j) [i + Suc j])
               \<and> declName (fst ((d # ds) ! Suc j)) = name"
      using False by simp
    then show ?thesis by blast
  qed
qed

subsection \<open>Every Field the package builds is well formed\<close>

text \<open>
  The field lookup returns the descriptor of a field reached through embedded structs;
  \<^verbatim>\<open>FieldByIndex\<close> along such a path yields a Value that is read-only exactly when that
  field is not exported. So the Fields that \<^verbatim>\<open>FieldOk\<close>, \<^verbatim>\<open>Field\<close> and \<^verbatim>\<open>Fields\<close> return are
  well formed.
\<close>

lemma reaches_append:
  "reaches t idx = Some u \<Longrightarrow> i < length (structFields u) \<Longrightarrow>
   embeddedStruct (structFields u ! i) = Some w \<Longrightarrow> reaches t (idx @ [i]) = Some w"
  by (induction idx arbitrary: t) (auto split: if_splits option.splits)

lemma drop_Cons_nth:
  "drop i xs = d # ds \<Longrightarrow> i < length xs \<and> xs ! i = d \<and> drop (Suc i) xs = ds"
  by (metis Cons_nth_drop_Suc drop_all list.discI list.inject not_le_imp_less)



lemma scanFields_inv:
  assumes "scanFields name c index ds i st = Some st'"
    and "reaches t index = Some u" and "ds = drop i (structFields u)"
    and "\<forall>x \<in> set (nxt st). reaches t (snd x) = Some (fst x)"
    and "\<forall>fld. found st = Some fld \<longrightarrow> resolves t fld"
  shows "(\<forall>x \<in> set (nxt st'). reaches t (snd x) = Some (fst x))
       \<and> (\<forall>fld. found st' = Some fld \<longrightarrow> resolves t fld)"
  using assms
proof (induction name c index ds i st arbitrary: st' rule: scanFields.induct)
  case (1 name c index i st)
  then show ?case by simp
next
  case (2 name c index d ds i st)
  from drop_Cons_nth[OF "2.prems"(3)[symmetric]]
  have i: "i < length (structFields u)" "structFields u ! i = d" "ds = drop (Suc i) (structFields u)"
    by auto
  show ?case
  proof (cases "declName (fst d) = name")
    case True
    with "2.prems"(1) have ok: "\<not> (c > 1 \<or> found st \<noteq> None)"
      and rec: "scanFields name c index ds (Suc i) (st\<lparr>found := Some (mkStructField d (index @ [i]))\<rparr>) = Some st'"
      by (auto split: if_splits)
    have "resolves t (mkStructField d (index @ [i]))"
      unfolding resolves_def using "2.prems"(2) i(1,2) by blast
    then have f: "\<forall>fld. found (st\<lparr>found := Some (mkStructField d (index @ [i]))\<rparr>) = Some fld
                    \<longrightarrow> resolves t fld" by simp
    have n: "\<forall>x \<in> set (nxt (st\<lparr>found := Some (mkStructField d (index @ [i]))\<rparr>)).
               reaches t (snd x) = Some (fst x)" using "2.prems"(4) by simp
    show ?thesis by (rule "2.IH"(1)[OF True ok rec "2.prems"(2) i(3) n f])
  next
    case False
    show ?thesis
    proof (cases "if found st \<noteq> None then None else embeddedStruct d")
      case None
      with False "2.prems"(1) have rec: "scanFields name c index ds (Suc i) st = Some st'" by simp
      show ?thesis by (rule "2.IH"(2)[OF False None rec "2.prems"(2) i(3) "2.prems"(4,5)])
    next
      case (Some styp)
      then have emb: "embeddedStruct d = Some styp" by (simp split: if_splits)
      show ?thesis
      proof (cases "nextCount st styp > 0")
        case True
        with False Some "2.prems"(1) have
          rec: "scanFields name c index ds (Suc i) (st\<lparr>nextCount := (nextCount st)(styp := 2)\<rparr>) = Some st'"
          by simp
        have n: "\<forall>x \<in> set (nxt (st\<lparr>nextCount := (nextCount st)(styp := 2)\<rparr>)).
               reaches t (snd x) = Some (fst x)" using "2.prems"(4) by simp
        have f: "\<forall>fld. found (st\<lparr>nextCount := (nextCount st)(styp := 2)\<rparr>) = Some fld
                    \<longrightarrow> resolves t fld" using "2.prems"(5) by simp
        show ?thesis by (rule "2.IH"(3)[OF False Some True rec "2.prems"(2) i(3) n f])
      next
        case nc: False
        let ?st = "st\<lparr>nextCount := (nextCount st)(styp := (if c > 1 then 2 else 1)),
                      nxt := nxt st @ [(styp, index @ [i])]\<rparr>"
        from nc False Some "2.prems"(1) have
          rec: "scanFields name c index ds (Suc i) ?st = Some st'"
          by simp
        have r: "reaches t (index @ [i]) = Some styp"
          using reaches_append[OF "2.prems"(2) i(1)] emb i(2) by simp
        have n: "\<forall>x \<in> set (nxt ?st). reaches t (snd x) = Some (fst x)"
          using "2.prems"(4) r by simp
        have f: "\<forall>fld. found ?st = Some fld \<longrightarrow> resolves t fld" using "2.prems"(5) by simp
        show ?thesis by (rule "2.IH"(4)[OF False Some nc rec "2.prems"(2) i(3) n f])
      qed
    qed
  qed
qed


lemma scanLevel_inv:
  assumes "scanLevel name count cur visited st = Some (visited', st')"
    and "\<forall>x \<in> set cur. reaches t (snd x) = Some (fst x)"
    and "\<forall>x \<in> set (nxt st). reaches t (snd x) = Some (fst x)"
    and "\<forall>fld. found st = Some fld \<longrightarrow> resolves t fld"
  shows "(\<forall>x \<in> set (nxt st'). reaches t (snd x) = Some (fst x))
       \<and> (\<forall>fld. found st' = Some fld \<longrightarrow> resolves t fld)"
  using assms
proof (induction name count cur visited st arbitrary: visited' st' rule: scanLevel.induct)
  case (1 name count visited st)
  then show ?case by simp
next
  case (2 name count scan rest visited st)
  have rest: "\<forall>x \<in> set rest. reaches t (snd x) = Some (fst x)" using "2.prems"(2) by simp
  show ?case
  proof (cases "fst scan \<in> set visited")
    case True
    with "2.prems"(1) have sl: "scanLevel name count rest visited st = Some (visited', st')"
      by simp
    show ?thesis by (rule "2.IH"(1)[OF True sl rest "2.prems"(3,4)])
  next
    case False
    with "2.prems"(1) obtain st1 where
      sf: "scanFields name (count (fst scan)) (snd scan) (structFields (fst scan)) 0 st = Some st1"
      and sl: "scanLevel name count rest (fst scan # visited) st1 = Some (visited', st')"
      by (auto split: option.splits)
    have r: "reaches t (snd scan) = Some (fst scan)" using "2.prems"(2) by simp
    have d: "structFields (fst scan) = drop 0 (structFields (fst scan))" by simp
    from scanFields_inv[OF sf r d "2.prems"(3,4)]
    have inv1: "\<forall>x \<in> set (nxt st1). reaches t (snd x) = Some (fst x)"
      "\<forall>fld. found st1 = Some fld \<longrightarrow> resolves t fld" by blast+
    show ?thesis by (rule "2.IH"(2)[OF False sf sl rest inv1])
  qed
qed


lemma fieldByNameLevels_inv:
  "fieldByNameLevels name next count visited = Some fld \<Longrightarrow>
   \<forall>x \<in> set next. reaches t (snd x) = Some (fst x) \<Longrightarrow> resolves t fld"
proof (induction name "next" count visited rule: fieldByNameLevels.induct)
  case (1 name "next" count visited)
  note eq = "1.prems"(1)[unfolded fieldByNameLevels.simps[of name "next" count visited]]
  from eq have ne: "next \<noteq> []" by (simp split: if_splits)
  from eq ne obtain visited' st where
    sl: "scanLevel name count next visited \<lparr>found = None, nxt = [], nextCount = (\<lambda>t. 0)\<rparr>
           = Some (visited', st)"
    by (auto split: option.splits)
  have e1: "\<forall>x \<in> set (nxt \<lparr>found = None, nxt = [], nextCount = (\<lambda>t. 0)\<rparr>).
              reaches t (snd x) = Some (fst x)" by simp
  have e2: "\<forall>fld. found \<lparr>found = None, nxt = [], nextCount = (\<lambda>t::gotype. 0::nat)\<rparr> = Some fld
              \<longrightarrow> resolves t fld" by simp
  from scanLevel_inv[OF sl "1.prems"(2) e1 e2]
  have inv: "\<forall>x \<in> set (nxt st). reaches t (snd x) = Some (fst x)"
    "\<forall>fld. found st = Some fld \<longrightarrow> resolves t fld" by blast+
  show ?case
  proof (cases "found st")
    case None
    with eq ne sl have r: "fieldByNameLevels name (nxt st) (nextCount st) visited' = Some fld"
      by simp
    have nn: "\<not> found st \<noteq> None" using None by simp
    show ?thesis by (rule "1.IH"[OF ne sl refl nn r inv(1)])
  next
    case (Some a)
    with eq ne sl have "a = fld" by simp
    with Some inv(2) show ?thesis by simp
  qed
qed

lemma quickCheck_resolves:
  "quickCheck name ds i = Some fld \<Longrightarrow> ds = drop i (structFields t) \<Longrightarrow> resolves t fld"
proof (induction ds arbitrary: i)
  case Nil
  then show ?case by simp
next
  case (Cons d ds)
  from drop_Cons_nth[OF Cons.prems(2)[symmetric]]
  have i: "i < length (structFields t)" "structFields t ! i = d" "ds = drop (Suc i) (structFields t)"
    by auto
  show ?case
  proof (cases "declName (fst d) = name")
    case True
    with Cons.prems(1) have "fld = mkStructField (structFields t ! i) ([] @ [i])" using i(2) by simp
    moreover have "reaches t [] = Some t" by simp
    ultimately show ?thesis unfolding resolves_def using i(1) by blast
  next
    case False
    with Cons.prems(1) have "quickCheck name ds (Suc i) = Some fld" by simp
    from Cons.IH[OF this i(3)] show ?thesis .
  qed
qed

lemma structFieldByName_resolves:
  assumes "structFieldByName t name = Some fld"
  shows "resolves t fld"
proof (cases "quickCheck name (structFields t) 0")
  case None
  with assms have "fieldByNameLevels name [(t, [])] (\<lambda>t. 0) [] = Some fld"
    by (simp add: structFieldByName_def split: if_splits)
  moreover have "\<forall>x \<in> set [(t, [])]. reaches t (snd x) = Some (fst x)" by simp
  ultimately show ?thesis by (rule fieldByNameLevels_inv)
next
  case (Some a)
  with assms have "a = fld" by (simp add: structFieldByName_def split: if_splits)
  with Some have "quickCheck name (structFields t) 0 = Some fld" by simp
  then show ?thesis by (rule quickCheck_resolves) simp
qed

lemma embeddedStruct_covers:
  "embeddedStruct d = Some u \<Longrightarrow> declEmbedded (fst d) \<and> covers (snd d) u"
  by (auto simp: embeddedStruct_def covers_def split: if_splits option.splits)

lemma throughPointer_covers:
  assumes "throughPointer s first (Val V False em d) = Inr w" and "covers V u"
    and "first \<longrightarrow> V = u"
  shows "\<exists>d0. w = Val u False em d0"
proof (cases "V = u")
  case True
  with assms(2) have "kindOf V = Struct" by (simp add: covers_def)
  with assms(1) True show ?thesis by (auto simp: throughPointer_def Value_Kind_def)
next
  case False
  with assms(2,3) have p: "kindOf V = Ptr" "elemType V = Some u" "kindOf u = Struct" "\<not> first"
    by (auto simp: covers_def)
  with assms(1) show ?thesis
    by (auto simp: throughPointer_def Value_Kind_def Value_Elem_def
        split: option.splits goval.splits Value.splits sum.splits if_splits)
qed

lemma Value_Field_flags:
  assumes "Value_Field (Val u False em d) i = Inr w"
  shows "i < length (structFields u) \<and>
         (\<exists>d'. w = Val (snd (structFields u ! i))
                     (declPkgPath (fst (structFields u ! i)) \<noteq> [] \<and> \<not> declEmbedded (fst (structFields u ! i)))
                     (declPkgPath (fst (structFields u ! i)) \<noteq> [] \<and> declEmbedded (fst (structFields u ! i))) d')"
  using assms
  by (auto simp: Value_Field_def Let_def split: if_splits storage.splits goval.splits)

lemma fieldByIndexLoop_flags:
  assumes "fieldByIndexLoop s first (Val V False em d) (idx @ [i]) = Inr w"
    and "covers V u" and "first \<longrightarrow> V = u" and "reaches u idx = Some u'"
  shows "i < length (structFields u') \<and>
         (\<exists>d'. w = Val (snd (structFields u' ! i))
                     (declPkgPath (fst (structFields u' ! i)) \<noteq> [] \<and> \<not> declEmbedded (fst (structFields u' ! i)))
                     (declPkgPath (fst (structFields u' ! i)) \<noteq> [] \<and> declEmbedded (fst (structFields u' ! i))) d')"
  using assms
proof (induction idx arbitrary: first V em d u)
  case Nil
  then have u: "u' = u" by simp
  from Nil.prems(1) obtain w0 where
    tp: "throughPointer s first (Val V False em d) = Inr w0" and
    vf: "Value_Field w0 i = Inr w"
    by (auto split: sum.splits)
  from throughPointer_covers[OF tp Nil.prems(2,3)] obtain d0 where "w0 = Val u False em d0"
    by blast
  with vf u show ?case using Value_Field_flags by simp
next
  case (Cons j js)
  from Cons.prems(1) obtain w0 w1 where
    tp: "throughPointer s first (Val V False em d) = Inr w0" and
    vf: "Value_Field w0 j = Inr w1" and
    rec: "fieldByIndexLoop s False w1 (js @ [i]) = Inr w"
    by (auto split: sum.splits)
  from throughPointer_covers[OF tp Cons.prems(2,3)] obtain d0 where w0: "w0 = Val u False em d0"
    by blast
  from Cons.prems(4) obtain u1 where
    j: "j < length (structFields u)" "embeddedStruct (structFields u ! j) = Some u1"
       "reaches u1 js = Some u'"
    by (auto split: if_splits option.splits)
  from embeddedStruct_covers[OF j(2)] have
    emb: "declEmbedded (fst (structFields u ! j))" "covers (snd (structFields u ! j)) u1" by auto
  from Value_Field_flags[OF vf[unfolded w0]] emb(1) obtain em1 d1 where
    w1: "w1 = Val (snd (structFields u ! j)) False em1 d1" by auto
  show ?case
    by (rule Cons.IH[OF rec[unfolded w1] emb(2) _ j(3)]) simp
qed

lemma Value_FieldByIndex_flags:
  assumes "Value_FieldByIndex s (Val T False em d) (idx @ [i]) = Inr w"
    and "kindOf T = Struct" and "reaches T idx = Some u'"
  shows "i < length (structFields u') \<and>
         (\<exists>d'. w = Val (snd (structFields u' ! i))
                     (declPkgPath (fst (structFields u' ! i)) \<noteq> [] \<and> \<not> declEmbedded (fst (structFields u' ! i)))
                     (declPkgPath (fst (structFields u' ! i)) \<noteq> [] \<and> declEmbedded (fst (structFields u' ! i))) d')"
proof (cases "idx = []")
  case True
  with assms show ?thesis using Value_Field_flags by (simp add: Value_FieldByIndex_def)
next
  case False
  then have "length (idx @ [i]) \<noteq> 1" by (cases idx) auto
  with assms(1,2) have l: "fieldByIndexLoop s True (Val T False em d) (idx @ [i]) = Inr w"
    by (simp add: Value_FieldByIndex_def Value_Kind_def split: if_splits)
  have c: "covers T T" using assms(2) by (simp add: covers_def)
  show ?thesis by (rule fieldByIndexLoop_flags[OF l c _ assms(3)]) simp
qed

lemma FieldOk_wfField:
  assumes "FieldOk f name s = Inr (Some g)"
  shows "wfField g"
proof -
  from assms obtain i v t fld fv where
    sv: "strctVal i = Inr v" and ty: "Value_Type v = Inr t"
    and tf: "Type_FieldByName t name = Inr (Some fld)"
    and vf: "Value_FieldByName s v name = Inr fv"
    and g: "g = \<lparr>f_value = fv, f_field = fld\<rparr>"
    by (auto simp: FieldOk_def split: sum.splits option.splits)
  from sv obtain T y where v: "v = Val T False False (Held y)" and k: "kindOf T = Struct"
    by (auto simp: strctVal_def reflect_ValueOf_def Value_Kind_def Let_def
        split: if_splits option.splits)
  from ty v have t: "t = T" by (simp add: Value_Type_def)
  from tf t k have sf: "structFieldByName T name = Some fld"
    by (simp add: Type_FieldByName_def)
  from structFieldByName_resolves[OF sf] obtain idx u i' where
    r: "reaches T idx = Some u" "i' < length (structFields u)"
       "fld = mkStructField (structFields u ! i') (idx @ [i'])"
    unfolding resolves_def by blast
  from vf v k sf r(3) have
    "Value_FieldByIndex s (Val T False False (Held y)) (idx @ [i']) = Inr fv"
    by (simp add: Value_FieldByName_def mkStructField_def)
  from Value_FieldByIndex_flags[OF this k r(1)] obtain d' where
    "fv = Val (snd (structFields u ! i'))
              (declPkgPath (fst (structFields u ! i')) \<noteq> [] \<and> \<not> declEmbedded (fst (structFields u ! i')))
              (declPkgPath (fst (structFields u ! i')) \<noteq> [] \<and> declEmbedded (fst (structFields u ! i'))) d'"
    by blast
  with g r(3) show ?thesis
    by (auto simp: wfField_def flagRO_def IsExported_def mkStructField_def)
qed

lemma fieldsFrom_wfField:
  "fieldsFrom (Val T False False d) ds i = Inr gs \<Longrightarrow> ds = drop i (structFields T) \<Longrightarrow>
   g \<in> set gs \<Longrightarrow> wfField g"
proof (induction ds arbitrary: i gs)
  case Nil
  then show ?case by simp
next
  case (Cons a ds)
  from drop_Cons_nth[OF Cons.prems(2)[symmetric]]
  have i: "i < length (structFields T)" "structFields T ! i = a" "ds = drop (Suc i) (structFields T)"
    by auto
  from Cons.prems(1) obtain fv fs where
    vf: "Value_Field (Val T False False d) i = Inr fv"
    and rest: "fieldsFrom (Val T False False d) ds (Suc i) = Inr fs"
    and gs: "gs = \<lparr>f_value = fv, f_field = mkStructField a [i]\<rparr> # fs"
    by (auto split: sum.splits)
  show ?case
  proof (cases "g \<in> set fs")
    case True
    from Cons.IH[OF rest i(3) True] show ?thesis .
  next
    case False
    with Cons.prems(3) gs have "g = \<lparr>f_value = fv, f_field = mkStructField a [i]\<rparr>" by simp
    with Value_Field_flags[OF vf] i(2) show ?thesis
      by (auto simp: wfField_def flagRO_def IsExported_def mkStructField_def)
  qed
qed

lemma Fields_wfField:
  assumes "Fields f = Inr gs" and "g \<in> set gs"
  shows "wfField g"
proof -
  from assms(1) obtain T d where
    v: "f_value f = Val T False False d" and ff: "fieldsFrom (f_value f) (structFields T) 0 = Inr gs"
    by (cases "f_value f")
       (auto simp: Fields_def getFields_def flagRO_def Value_Kind_def split: if_splits)
  show ?thesis by (rule fieldsFrom_wfField[OF ff[unfolded v] _ assms(2)]) simp
qed

lemma Field'_wfField: "Field' f name s = Inr g \<Longrightarrow> wfField g"
  by (auto simp: Field'_def split: sum.splits option.splits dest: FieldOk_wfField)

subsection \<open>Evaluating the examples\<close>

lemmas ex_defs = exStore_def exFieldA_def decl_def mkStructField_def
lemmas field_defs = IsExported_def Kind_def reflect_Indirect_def Value_Kind_def
  Value_CanSet_def flagAddr_def flagRO_def Value_Elem_def load_def readLoc_def writeLoc_def
  checkForSet_def reflect_ValueOf_def basicHas_def
lemmas set_defs = Set_def Value_Set_def mustBeAssignable_def mustBeExported_def assignTo_def
  directlyAssignable_def implements_def
lemmas read_defs = Value_def Value_Interface_def IsZero_def Value_Type_def reflect_Zero_def
  reflect_DeepEqual_def
lemmas lookup_defs = FieldOk_def Field'_def strctVal_def Type_FieldByName_def throughPointer_def
  fieldByNameLevels.simps Value_FieldByName_def Value_FieldByIndex_def Value_Field_def
  structFieldByName_def hasEmbeds_def embeddedStruct_def

lemma ex_d: "\<not> IsExported exFieldd" "valueOk exStore (f_value exFieldd)"
  by (simp_all add: ex_defs exFieldd_def field_defs valueOk_def)

subsection \<open>Writing: the kind check of Set\<close>

text \<open>
  C2, as amended. \<^verbatim>\<open>Set\<close> compares the incoming kind with the kind of the Value that
  \<^verbatim>\<open>reflect.Indirect\<close> makes of the field: for an exported, settable field and a well-formed
  incoming value whose kind, dereferenced one level, differs from that kind, \<^verbatim>\<open>Set\<close> returns
  the "wrong kind" error and the store is as it was. That kind is the field's own kind
  whenever the field is not a pointer.
\<close>

theorem Set_kind_mismatch:
  assumes "IsExported f" and "reflect_Indirect s (f_value f) = Inr v" and "Value_CanSet v"
    and "ifaceOk val" and "derefKind val \<noteq> Value_Kind v"
  shows "Set f val s =
           Inr (Some (Errorf (''wrong kind: '' @ kindString (derefKind val)
                              @ '' want: '' @ kindString (Value_Kind v))), s)
         \<and> (Kind f \<noteq> Ptr \<longrightarrow> Value_Kind v = Kind f)"
proof -
  from checkForSet_given[OF assms(1,3,4)] obtain g where
    g: "checkForSet s f v val = Inr (g, None)" "Value_Kind g = derefKind val" by blast
  have "Kind f \<noteq> Ptr \<longrightarrow> Value_Kind v = Kind f"
    using assms(2) by (auto simp: Kind_def reflect_Indirect_def)
  then show ?thesis using assms(2,5) g by (simp add: Set_def)
qed

text \<open>
  Witness for C2: setting the \<^verbatim>\<open>int\<close> field \<^verbatim>\<open>A\<close> to the string \<^verbatim>\<open>"fatih"\<close>.
\<close>

theorem Set_kind_mismatch_witness:
  "IsExported exFieldA
   \<and> reflect_Indirect exStore (f_value exFieldA) = Inr (f_value exFieldA)
   \<and> Value_CanSet (f_value exFieldA)
   \<and> ifaceOk (Some (Basic TString, VString ''fatih''))
   \<and> derefKind (Some (Basic TString, VString ''fatih'')) \<noteq> Value_Kind (f_value exFieldA)
   \<and> Kind exFieldA \<noteq> Ptr
   \<and> Set exFieldA (Some (Basic TString, VString ''fatih'')) exStore =
       Inr (Some (Errorf ''wrong kind: string want: int''), exStore)"
proof -
  have h: "IsExported exFieldA"
    "reflect_Indirect exStore (f_value exFieldA) = Inr (f_value exFieldA)"
    "Value_CanSet (f_value exFieldA)"
    "ifaceOk (Some (Basic TString, VString ''fatih''))"
    "derefKind (Some (Basic TString, VString ''fatih'')) \<noteq> Value_Kind (f_value exFieldA)"
    by (simp_all add: ex_defs field_defs ifaceOk_def derefKind_def)
  have k: "Kind exFieldA \<noteq> Ptr" by (simp add: ex_defs field_defs)
  show ?thesis using h k Set_kind_mismatch[OF h]
    by (simp add: ex_defs Value_Kind_def derefKind_def)
qed

text \<open>
  Counterexample to C2 as stated: the field \<^verbatim>\<open>P\<close> has the declared kind \<^verbatim>\<open>ptr\<close>, the incoming
  \<^verbatim>\<open>int\<close> 7 has another kind, and \<^verbatim>\<open>Set\<close> returns nil and overwrites what \<^verbatim>\<open>P\<close> points to.
\<close>

theorem Set_kind_mismatch_counterexample:
  "IsExported exFieldP \<and> Value_CanSet (f_value exFieldP) \<and> settable exStore exFieldP
   \<and> Kind exFieldP = Ptr
   \<and> derefKind (Some (Basic TInt, VInt 7)) = IntKind
   \<and> readLoc exStore (1, []) = Some (VInt 5)
   \<and> Set exFieldP (Some (Basic TInt, VInt 7)) exStore = Inr (None, exStore(1 \<mapsto> VInt 7))
   \<and> readLoc (exStore(1 \<mapsto> VInt 7)) (1, []) = Some (VInt 7)"
  by (simp add: ex_defs exFieldP_def field_defs settable_def derefKind_def Set_def Value_Set_def mustBeAssignable_def
      mustBeExported_def assignTo_def directlyAssignable_def)

text \<open>
  C10: for an exported, settable field, \<^verbatim>\<open>Set(nil)\<close> returns the "wrong kind" error, the
  incoming kind being \<^verbatim>\<open>invalid\<close>, and the store is as it was; the same holds for a nil
  pointer of any type. The kind that is compared is never \<^verbatim>\<open>invalid\<close>.
\<close>

theorem Set_nil:
  assumes "IsExported f" and "reflect_Indirect s (f_value f) = Inr v" and "Value_CanSet v"
  shows "Set f None s =
           Inr (Some (Errorf (''wrong kind: invalid want: '' @ kindString (Value_Kind v))), s)
         \<and> Set f (Some (PtrTo T, VPtr None)) s =
           Inr (Some (Errorf (''wrong kind: invalid want: '' @ kindString (Value_Kind v))), s)
         \<and> Value_Kind v \<noteq> Invalid"
proof -
  from CanSet_cases[OF assms(3)] obtain U l where v: "v = Val U False False (At l)" by blast
  have k: "Value_Kind v \<noteq> Invalid" using v by (simp add: Value_Kind_def)
  have c1: "checkForSet s f v None = Inr (ZeroValue, None)"
    using assms(1,3) by (simp add: checkForSet_def reflect_ValueOf_def Value_Kind_def)
  have c2: "checkForSet s f v (Some (PtrTo T, VPtr None)) = Inr (ZeroValue, None)"
    using assms(1,3)
    by (simp add: checkForSet_def reflect_ValueOf_def Value_Kind_def Value_Elem_def load_def)
  show ?thesis using assms(2) c1 c2 k by (simp add: Set_def Value_Kind_def)
qed

text \<open>Witness for C10: \<^verbatim>\<open>Set(nil)\<close> on the pointer field \<^verbatim>\<open>P\<close>.\<close>

theorem Set_nil_witness:
  "IsExported exFieldP
   \<and> reflect_Indirect exStore (f_value exFieldP) = Inr (Val (Basic TInt) False False (At (1, [])))
   \<and> Value_CanSet (Val (Basic TInt) False False (At (1, [])))
   \<and> Set exFieldP None exStore = Inr (Some (Errorf ''wrong kind: invalid want: int''), exStore)
   \<and> Set exFieldP (Some (PtrTo (Basic TInt), VPtr None)) exStore =
       Inr (Some (Errorf ''wrong kind: invalid want: int''), exStore)"
proof -
  have h: "IsExported exFieldP"
    "reflect_Indirect exStore (f_value exFieldP) = Inr (Val (Basic TInt) False False (At (1, [])))"
    "Value_CanSet (Val (Basic TInt) False False (At (1, [])))"
    by (simp_all add: ex_defs exFieldP_def field_defs)
  show ?thesis using h Set_nil[OF h, of "Basic TInt"]
    by (simp add: Value_Kind_def)
qed

subsection \<open>Writing: the typed setters\<close>

text \<open>
  C3, as amended. After \<^verbatim>\<open>checkForSet\<close> the typed setters write at once: for an exported,
  settable field, when the kind of the Value that \<^verbatim>\<open>reflect.Indirect\<close> makes of the field
  is outside the setter's family, the call panics with the \<^verbatim>\<open>ValueError\<close> of the reflect
  setter and returns no error. That kind is the field's own kind whenever the field
  is not a pointer.
\<close>

theorem setters_wrong_family:
  assumes "IsExported f" and "reflect_Indirect s (f_value f) = Inr v" and "Value_CanSet v"
  shows "(Value_Kind v \<notin> {IntKind, Int8, Int16, Int32, Int64} \<longrightarrow>
            SetInt f i s = Inl (Panic (''reflect: call of reflect.Value.SetInt on ''
                                        @ kindString (Value_Kind v) @ '' Value'')))
       \<and> (Value_Kind v \<notin> {Float32, Float64} \<longrightarrow>
            SetFloat float32 f x s = Inl (Panic (''reflect: call of reflect.Value.SetFloat on ''
                                        @ kindString (Value_Kind v) @ '' Value'')))
       \<and> (Value_Kind v \<notin> {Uint, Uint8, Uint16, Uint32, Uint64, Uintptr} \<longrightarrow>
            SetUint f u s = Inl (Panic (''reflect: call of reflect.Value.SetUint on ''
                                        @ kindString (Value_Kind v) @ '' Value'')))
       \<and> (Kind f \<noteq> Ptr \<longrightarrow> Value_Kind v = Kind f)"
proof -
  from CanSet_cases[OF assms(3)] obtain U l where v: "v = Val U False False (At l)" by blast
  have k: "Value_Kind v \<noteq> Invalid" using v by (simp add: Value_Kind_def)
  have m: "\<And>n. mustBeAssignable n v = None"
    using v by (simp add: mustBeAssignable_def flagRO_def flagAddr_def)
  have c: "\<exists>g. checkForSet s f v (Some (Basic b, w)) = Inr (g, None)" for b w
    using assms(1,3) by (simp add: checkForSet_def reflect_ValueOf_def Value_Kind_def)
  have kf: "Kind f \<noteq> Ptr \<longrightarrow> Value_Kind v = Kind f"
    using assms(2) by (auto simp: Kind_def reflect_Indirect_def)
  have 1: "Value_Kind v \<notin> {IntKind, Int8, Int16, Int32, Int64} \<Longrightarrow>
            SetInt f i s = Inl (Panic (''reflect: call of reflect.Value.SetInt on ''
                                        @ kindString (Value_Kind v) @ '' Value''))"
    using assms(2) m k c[of TInt64 "VInt i"]
    by (auto simp: SetInt_def Value_SetInt_def valueError_def)
  have 2: "Value_Kind v \<notin> {Float32, Float64} \<Longrightarrow>
            SetFloat float32 f x s = Inl (Panic (''reflect: call of reflect.Value.SetFloat on ''
                                        @ kindString (Value_Kind v) @ '' Value''))"
    using assms(2) m k c[of TFloat64 "VFloat64 x"]
    by (auto simp: SetFloat_def Value_SetFloat_def valueError_def)
  have 3: "Value_Kind v \<notin> {Uint, Uint8, Uint16, Uint32, Uint64, Uintptr} \<Longrightarrow>
            SetUint f u s = Inl (Panic (''reflect: call of reflect.Value.SetUint on ''
                                        @ kindString (Value_Kind v) @ '' Value''))"
    using assms(2) m k c[of TUint64 "VUint u"]
    by (auto simp: SetUint_def Value_SetUint_def valueError_def)
  show ?thesis using 1 2 3 kf by blast
qed

text \<open>Witness for C3: the three typed setters on the \<^verbatim>\<open>string\<close> field \<^verbatim>\<open>S\<close>.\<close>

theorem setters_wrong_family_witness:
  "IsExported exFieldS
   \<and> reflect_Indirect exStore (f_value exFieldS) = Inr (f_value exFieldS)
   \<and> Value_CanSet (f_value exFieldS)
   \<and> Kind exFieldS = String
   \<and> SetInt exFieldS 7 exStore =
       Inl (Panic ''reflect: call of reflect.Value.SetInt on string Value'')
   \<and> SetFloat (\<lambda>x. 0) exFieldS 7 exStore =
       Inl (Panic ''reflect: call of reflect.Value.SetFloat on string Value'')
   \<and> SetUint exFieldS 7 exStore =
       Inl (Panic ''reflect: call of reflect.Value.SetUint on string Value'')"
proof -
  have h: "IsExported exFieldS"
    "reflect_Indirect exStore (f_value exFieldS) = Inr (f_value exFieldS)"
    "Value_CanSet (f_value exFieldS)"
    by (simp_all add: ex_defs exFieldS_def field_defs)
  have k: "Kind exFieldS = String" by (simp add: ex_defs exFieldS_def field_defs)
  show ?thesis using h k setters_wrong_family[OF h, of 7 "\<lambda>x. 0" 7 7]
    by (simp add: ex_defs exFieldS_def Value_Kind_def)
qed

text \<open>
  Counterexample to C3 as stated: the field \<^verbatim>\<open>P\<close> has the kind \<^verbatim>\<open>ptr\<close>, which is no signed
  integer kind, and \<^verbatim>\<open>SetInt\<close> returns nil and overwrites what \<^verbatim>\<open>P\<close> points to.
\<close>

theorem setters_wrong_family_counterexample:
  "IsExported exFieldP \<and> Value_CanSet (f_value exFieldP) \<and> settable exStore exFieldP
   \<and> Kind exFieldP = Ptr
   \<and> readLoc exStore (1, []) = Some (VInt 5)
   \<and> SetInt exFieldP 7 exStore = Inr (None, exStore(1 \<mapsto> VInt 7))
   \<and> readLoc (exStore(1 \<mapsto> VInt 7)) (1, []) = Some (VInt 7)"
  by (simp add: ex_defs exFieldP_def field_defs settable_def SetInt_def Value_SetInt_def mustBeAssignable_def store_at_def)

subsection \<open>Writing: unexported fields\<close>

text \<open>
  C4: on a field that is not exported, \<^verbatim>\<open>Set\<close>, \<^verbatim>\<open>SetInt\<close>, \<^verbatim>\<open>SetFloat\<close> and \<^verbatim>\<open>SetUint\<close> return
  \<^verbatim>\<open>errNotExported\<close> and the store is as it was; \<^verbatim>\<open>checkForSet\<close> reports \<^verbatim>\<open>errNotExported\<close>
  whatever Value it is given, settable or not.
\<close>

theorem not_exported_setters:
  assumes "\<not> IsExported f" and "valueOk s (f_value f)"
  shows "Set f val s = Inr (Some errNotExported, s)
       \<and> SetInt f i s = Inr (Some errNotExported, s)
       \<and> SetFloat float32 f x s = Inr (Some errNotExported, s)
       \<and> SetUint f u s = Inr (Some errNotExported, s)
       \<and> checkForSet s f v val = Inr (ZeroValue, Some errNotExported)"
proof -
  from Indirect_valueOk[OF assms(2)] obtain w where w: "reflect_Indirect s (f_value f) = Inr w"
    by blast
  have c: "\<And>v val. checkForSet s f v val = Inr (ZeroValue, Some errNotExported)"
    using assms(1) by (simp add: checkForSet_def)
  show ?thesis using w c
    by (simp add: Set_def SetInt_def SetFloat_def SetUint_def)
qed

text \<open>
  Witness for C4: the unexported field \<^verbatim>\<open>d\<close>; the last conjunct hands \<^verbatim>\<open>checkForSet\<close> the
  zero Value, which cannot be set.
\<close>

theorem not_exported_setters_witness:
  "\<not> IsExported exFieldd \<and> valueOk exStore (f_value exFieldd)
   \<and> Set exFieldd (Some (Basic TInt, VInt 7)) exStore = Inr (Some errNotExported, exStore)
   \<and> SetInt exFieldd 7 exStore = Inr (Some errNotExported, exStore)
   \<and> SetFloat (\<lambda>x. 0) exFieldd 7 exStore = Inr (Some errNotExported, exStore)
   \<and> SetUint exFieldd 7 exStore = Inr (Some errNotExported, exStore)
   \<and> \<not> Value_CanSet ZeroValue
   \<and> checkForSet exStore exFieldd ZeroValue None = Inr (ZeroValue, Some errNotExported)"
  using ex_d not_exported_setters[OF ex_d, of "Some (Basic TInt, VInt 7)" 7 "\<lambda>x. 0" 7 7 ZeroValue]
    not_exported_setters[OF ex_d, of None 7 "\<lambda>x. 0" 7 7 ZeroValue]
  by (simp add: Value_CanSet_def flagAddr_def)

subsection \<open>Writing and reading back\<close>

text \<open>
  C1, as amended. For an exported, settable field whose type \<open>T\<close> is not a pointer type and
  every value \<open>x\<close> of exactly that type, \<^verbatim>\<open>Set\<close> returns nil and \<^verbatim>\<open>Value\<close> then returns \<open>x\<close>, with
  its type, whatever the field held before.
\<close>

theorem Set_then_Value:
  assumes "IsExported f" and "f_value f = Val T st em d" and "kindOf T \<noteq> Ptr"
    and "Value_CanSet (f_value f)" and "valueOk s (f_value f)" and "ifaceOk (Some (T, x))"
  shows "\<exists>s'. Set f (Some (T, x)) s = Inr (None, s') \<and> Value f s' = Inr (Some (T, x))"
proof -
  from CanSet_cases[OF assms(4)] assms(2) obtain l where
    v: "f_value f = Val T False False (At l)" by auto
  from assms(6) have ni: "kindOf T \<noteq> Interface" by (simp add: ifaceOk_def)
  from assms(5) v obtain y where y: "readLoc s l = Some y"
    by (auto simp: valueOk_def load_def split: option.splits)
  from writeLoc_ok[OF y] obtain s' where w: "writeLoc s l x = Some s'" by blast
  have ind: "reflect_Indirect s (f_value f) = Inr (f_value f)"
    using v assms(3) by (simp add: reflect_Indirect_def Value_Kind_def)
  have chk: "checkForSet s f (f_value f) (Some (T, x)) = Inr (Val T False False (Held x), None)"
    using assms(1,3,4) by (simp add: checkForSet_def reflect_ValueOf_def Value_Kind_def)
  have set: "Value_Set s (f_value f) (Val T False False (Held x)) = Inr s'"
    using v w
    by (simp add: Value_Set_def mustBeAssignable_def mustBeExported_def flagRO_def flagAddr_def
        load_def assignTo_def directlyAssignable_def)
  have 1: "Set f (Some (T, x)) s = Inr (None, s')"
    using ind chk set v by (simp add: Set_def Value_Kind_def)
  have 2: "Value f s' = Inr (Some (T, x))"
    using v ni readLoc_writeLoc[OF w] by (simp add: Value_def Value_Interface_def load_def)
  from 1 2 show ?thesis by blast
qed

text \<open>Witness for C1: setting the \<^verbatim>\<open>int\<close> field \<^verbatim>\<open>A\<close> to 7.\<close>

theorem Set_then_Value_witness:
  "IsExported exFieldA \<and> f_value exFieldA = Val (Basic TInt) False False (At (0, [0]))
   \<and> kindOf (Basic TInt) \<noteq> Ptr \<and> Value_CanSet (f_value exFieldA)
   \<and> valueOk exStore (f_value exFieldA) \<and> ifaceOk (Some (Basic TInt, VInt 7))
   \<and> (\<exists>s'. Set exFieldA (Some (Basic TInt, VInt 7)) exStore = Inr (None, s')
           \<and> Value exFieldA s' = Inr (Some (Basic TInt, VInt 7)))"
proof -
  have h: "IsExported exFieldA" "f_value exFieldA = Val (Basic TInt) False False (At (0, [0]))"
    "kindOf (Basic TInt) \<noteq> Ptr" "Value_CanSet (f_value exFieldA)"
    "valueOk exStore (f_value exFieldA)" "ifaceOk (Some (Basic TInt, VInt 7))"
    by (simp_all add: ex_defs field_defs valueOk_def ifaceOk_def)
  show ?thesis using h Set_then_Value[OF h] by simp
qed

text \<open>
  Counterexample to C1 as stated, in two parts. A value of the defined type
  \<^verbatim>\<open>type MyInt int\<close> has the kind of the \<^verbatim>\<open>int\<close> field \<^verbatim>\<open>A\<close>, and \<^verbatim>\<open>Set\<close> panics in \<^verbatim>\<open>reflect.Set\<close>.
  A pointer to the \<^verbatim>\<open>int\<close> at address 2 has the kind of the pointer field \<^verbatim>\<open>P\<close>, \<^verbatim>\<open>Set\<close>
  copies what it points to, and \<^verbatim>\<open>Value\<close> returns the pointer \<^verbatim>\<open>P\<close> held before, not the
  one that was passed.
\<close>

theorem Set_then_Value_counterexample:
  "IsExported exFieldA \<and> Value_CanSet (f_value exFieldA) \<and> settable exStore exFieldA
   \<and> Kind exFieldA = IntKind
   \<and> kindOf (Named ''MyInt'' (Basic TInt)) = IntKind
   \<and> ifaceOk (Some (Named ''MyInt'' (Basic TInt), VInt 7))
   \<and> Set exFieldA (Some (Named ''MyInt'' (Basic TInt), VInt 7)) exStore =
       Inl (NotAssignable (Named ''MyInt'' (Basic TInt)) (Basic TInt))
   \<and> IsExported exFieldP \<and> Value_CanSet (f_value exFieldP) \<and> settable exStore exFieldP
   \<and> Kind exFieldP = Ptr
   \<and> kindOf (PtrTo (Basic TInt)) = Ptr
   \<and> ifaceOk (Some (PtrTo (Basic TInt), VPtr (Some (2, []))))
   \<and> Set exFieldP (Some (PtrTo (Basic TInt), VPtr (Some (2, [])))) exStore =
       Inr (None, exStore(1 \<mapsto> VInt 7))
   \<and> Value exFieldP (exStore(1 \<mapsto> VInt 7)) = Inr (Some (PtrTo (Basic TInt), VPtr (Some (1, []))))"
  by (simp add: ex_defs exFieldP_def field_defs settable_def ifaceOk_def set_defs Value_def Value_Interface_def)

subsection \<open>Writing: a pointer to the value\<close>

text \<open>
  C8, as amended. For every field and every well-formed value \<open>x\<close> whose kind is not
  \<^verbatim>\<open>ptr\<close>, \<^verbatim>\<open>Set\<close> given a pointer to a variable that holds \<open>x\<close> does what \<^verbatim>\<open>Set\<close> given \<open>x\<close>
  does: the same error or panic and the same store.
\<close>

theorem Set_pointer_to_value:
  assumes "kindOf T \<noteq> Ptr" and "ifaceOk (Some (T, x))" and "readLoc s l = Some x"
  shows "Set f (Some (PtrTo T, VPtr (Some l))) s = Set f (Some (T, x)) s"
proof (cases "reflect_Indirect s (f_value f)")
  case (Inl a)
  then show ?thesis by (simp add: Set_def)
next
  case (Inr v)
  show ?thesis
  proof (cases "IsExported f \<and> Value_CanSet v")
    case False
    then show ?thesis using Inr by (auto simp: Set_def checkForSet_def)
  next
    case True
    have c1: "checkForSet s f v (Some (PtrTo T, VPtr (Some l))) = Inr (Val T False False (At l), None)"
      using True
      by (simp add: checkForSet_def reflect_ValueOf_def Value_Kind_def Value_Elem_def load_def)
    have c2: "checkForSet s f v (Some (T, x)) = Inr (Val T False False (Held x), None)"
      using True assms(1) by (simp add: checkForSet_def reflect_ValueOf_def Value_Kind_def)
    from True CanSet_cases obtain U k where v: "v = Val U False False (At k)" by blast
    have s: "Value_Set s v (Val T False False (At l)) = Value_Set s v (Val T False False (Held x))"
      using assms(3) v
      by (simp add: Value_Set_def mustBeAssignable_def mustBeExported_def flagRO_def flagAddr_def
          load_def)
    show ?thesis using Inr c1 c2 s by (simp add: Set_def Value_Kind_def)
  qed
qed

text \<open>Witness for C8: the \<^verbatim>\<open>int\<close> 7 at address 2 and a pointer to it, set into \<^verbatim>\<open>A\<close>.\<close>

theorem Set_pointer_to_value_witness:
  "kindOf (Basic TInt) \<noteq> Ptr \<and> ifaceOk (Some (Basic TInt, VInt 7))
   \<and> readLoc exStore (2, []) = Some (VInt 7)
   \<and> Set exFieldA (Some (PtrTo (Basic TInt), VPtr (Some (2, [])))) exStore =
       Set exFieldA (Some (Basic TInt, VInt 7)) exStore
   \<and> Set exFieldA (Some (Basic TInt, VInt 7)) exStore =
       Inr (None, exStore(0 \<mapsto> VStruct [VInt 7, VInt 5, VPtr (Some (1, [])), VString ''x'']))"
proof -
  have h: "kindOf (Basic TInt) \<noteq> Ptr" "ifaceOk (Some (Basic TInt, VInt 7))"
    "readLoc exStore (2, []) = Some (VInt 7)"
    by (simp_all add: ex_defs field_defs ifaceOk_def)
  have r: "Set exFieldA (Some (Basic TInt, VInt 7)) exStore =
       Inr (None, exStore(0 \<mapsto> VStruct [VInt 7, VInt 5, VPtr (Some (1, [])), VString ''x'']))"
    by (simp add: ex_defs field_defs set_defs)
  show ?thesis using h r Set_pointer_to_value[OF h, of exFieldA] by simp
qed

text \<open>
  Counterexample to C8 as stated: \<open>x\<close> is itself a pointer, to the \<^verbatim>\<open>int\<close> 7 at address 2.
  \<^verbatim>\<open>Set\<close> given \<open>x\<close> dereferences it and stores 7 in \<^verbatim>\<open>A\<close>; \<^verbatim>\<open>Set\<close> given the pointer to \<open>x\<close> at
  address 3 dereferences that to \<open>x\<close> and returns the "wrong kind" error.
\<close>

theorem Set_pointer_to_value_counterexample:
  "IsExported exFieldA \<and> Value_CanSet (f_value exFieldA) \<and> settable exStore exFieldA
   \<and> readLoc exStore (3, []) = Some (VPtr (Some (2, [])))
   \<and> Set exFieldA (Some (PtrTo (Basic TInt), VPtr (Some (2, [])))) exStore =
       Inr (None, exStore(0 \<mapsto> VStruct [VInt 7, VInt 5, VPtr (Some (1, [])), VString ''x'']))
   \<and> Set exFieldA (Some (PtrTo (PtrTo (Basic TInt)), VPtr (Some (3, [])))) exStore =
       Inr (Some (Errorf ''wrong kind: ptr want: int''), exStore)"
  by (simp add: ex_defs field_defs settable_def set_defs)

subsection \<open>Reading\<close>

text \<open>
  C5: on a well-formed Field backed by the store, \<^verbatim>\<open>Value\<close> and \<^verbatim>\<open>IsZero\<close> panic in
  \<^verbatim>\<open>Value.Interface\<close> when the field is not exported, and return when it is. Neither
  returns a store: they write nothing.
\<close>

theorem read_exported_or_not:
  assumes "wfField f" and "valueOk s (f_value f)"
  shows "(\<not> IsExported f \<longrightarrow>
            Value f s = Inl (Panic ''reflect.Value.Interface: cannot return value obtained from unexported field or method'')
          \<and> IsZero n f s = Inl (Panic ''reflect.Value.Interface: cannot return value obtained from unexported field or method''))
       \<and> (IsExported f \<longrightarrow> (\<exists>x. Value f s = Inr x) \<and> (\<exists>b. IsZero n f s = Inr b))"
proof -
  from assms(1) obtain T st em d where v: "f_value f = Val T st em d"
    by (cases "f_value f") (auto simp: wfField_def)
  from assms(2) v obtain y where y: "load s d = Some y" "hasType T y"
    by (auto simp: valueOk_def split: option.splits)
  have z: "\<exists>i. Value_Interface s (reflect_Zero T) = Inr i"
  proof (cases "kindOf T = Interface")
    case True
    then show ?thesis using zeroVal_Interface[OF True]
      by (simp add: Value_Interface_def reflect_Zero_def load_def)
  next
    case False
    then show ?thesis by (simp add: Value_Interface_def reflect_Zero_def load_def)
  qed
  have 1: "\<not> IsExported f \<longrightarrow>
            Value f s = Inl (Panic ''reflect.Value.Interface: cannot return value obtained from unexported field or method'')
          \<and> IsZero n f s = Inl (Panic ''reflect.Value.Interface: cannot return value obtained from unexported field or method'')"
    using assms(1) v z
    by (auto simp: wfField_def flagRO_def Value_def Value_Interface_def IsZero_def Value_Type_def)
  have 2: "IsExported f \<longrightarrow> (\<exists>x. Value f s = Inr x) \<and> (\<exists>b. IsZero n f s = Inr b)"
  proof
    assume e: "IsExported f"
    from IsZero_result[OF e assms(1) v y] have iz: "\<exists>b. IsZero n f s = Inr b" by blast
    from e assms(1) v have ro: "\<not> st" "\<not> em" by (auto simp: wfField_def flagRO_def)
    have "\<exists>x. Value f s = Inr x"
    proof (cases "kindOf T = Interface")
      case True
      from hasType_Interface[OF True y(2)] obtain i where "y = VIface i" by blast
      then show ?thesis using True v y ro by (simp add: Value_def Value_Interface_def)
    next
      case False
      then show ?thesis using v y ro by (simp add: Value_def Value_Interface_def)
    qed
    with iz show "(\<exists>x. Value f s = Inr x) \<and> (\<exists>b. IsZero n f s = Inr b)" by blast
  qed
  from 1 2 show ?thesis by blast
qed

text \<open>Witness for C5: the unexported field \<^verbatim>\<open>d\<close> and the exported field \<^verbatim>\<open>A\<close>.\<close>

theorem read_exported_or_not_witness:
  "wfField exFieldd \<and> valueOk exStore (f_value exFieldd) \<and> \<not> IsExported exFieldd
   \<and> Value exFieldd exStore = Inl (Panic ''reflect.Value.Interface: cannot return value obtained from unexported field or method'')
   \<and> IsZero 0 exFieldd exStore = Inl (Panic ''reflect.Value.Interface: cannot return value obtained from unexported field or method'')
   \<and> wfField exFieldA \<and> valueOk exStore (f_value exFieldA) \<and> IsExported exFieldA
   \<and> (\<exists>x. Value exFieldA exStore = Inr x) \<and> (\<exists>b. IsZero 0 exFieldA exStore = Inr b)
   \<and> Value exFieldA exStore = Inr (Some (Basic TInt, VInt 1))
   \<and> IsZero 0 exFieldA exStore = Inr False"
proof -
  have d: "wfField exFieldd" "valueOk exStore (f_value exFieldd)"
    and nd: "\<not> IsExported exFieldd"
    by (simp_all add: ex_defs exFieldd_def field_defs valueOk_def wfField_def)
  have a: "wfField exFieldA" "valueOk exStore (f_value exFieldA)"
    and ea: "IsExported exFieldA"
    by (simp_all add: ex_defs field_defs valueOk_def wfField_def)
  have r: "Value exFieldA exStore = Inr (Some (Basic TInt, VInt 1))"
    "IsZero 0 exFieldA exStore = Inr False"
    by (simp_all add: ex_defs field_defs read_defs)
  show ?thesis
    using d nd a ea r read_exported_or_not[OF d, of 0] read_exported_or_not[OF a, of 0]
    by simp
qed

text \<open>
  C6: for an exported, well-formed Field whose value \<open>y\<close> has the field's type \<open>T\<close>, \<^verbatim>\<open>IsZero\<close>
  returns what \<open>deepValueEqual\<close> answers for \<open>y\<close> and the zero value of \<open>T\<close>, for every
  bound on the pointer steps; and that is whether \<open>y\<close> is a zero value by its shape.
\<close>

theorem IsZero_deep_equal:
  assumes "IsExported f" and "wfField f" and "f_value f = Val T st em d"
    and "load s d = Some y" and "hasType T y"
  shows "IsZero n f s = Inr (isZeroValue y)
       \<and> deepValueEqual n s y (zeroVal T) = Some (isZeroValue y)"
  using IsZero_result[OF assms] deepValueEqual_zero(1)[OF assms(5)] by simp

text \<open>
  Witness for C6: the field \<^verbatim>\<open>A\<close> holding 1, and holding 0 in a store where the struct is
  all zero.
\<close>

theorem IsZero_deep_equal_witness:
  "IsExported exFieldA \<and> wfField exFieldA
   \<and> f_value exFieldA = Val (Basic TInt) False False (At (0, [0]))
   \<and> load exStore (At (0, [0])) = Some (VInt 1) \<and> hasType (Basic TInt) (VInt 1)
   \<and> IsZero 0 exFieldA exStore = Inr False
   \<and> deepValueEqual 0 exStore (VInt 1) (zeroVal (Basic TInt)) = Some False
   \<and> load (exStore(0 \<mapsto> VStruct [VInt 0, VInt 0, VPtr None, VString []])) (At (0, [0])) = Some (VInt 0)
   \<and> IsZero 0 exFieldA (exStore(0 \<mapsto> VStruct [VInt 0, VInt 0, VPtr None, VString []])) = Inr True"
proof -
  have h: "IsExported exFieldA" "wfField exFieldA"
    "f_value exFieldA = Val (Basic TInt) False False (At (0, [0]))"
    "load exStore (At (0, [0])) = Some (VInt 1)" "hasType (Basic TInt) (VInt 1)"
    by (simp_all add: ex_defs field_defs wfField_def)
  have h0: "load (exStore(0 \<mapsto> VStruct [VInt 0, VInt 0, VPtr None, VString []])) (At (0, [0]))
              = Some (VInt 0)" "hasType (Basic TInt) (VInt 0)"
    by (simp_all add: ex_defs field_defs)
  show ?thesis
    using h h0(1) IsZero_deep_equal[OF h, of 0] IsZero_deep_equal[OF h(1,2,3) h0, of 0]
    by simp
qed

subsection \<open>Looking up a field by name\<close>

text \<open>
  C7, as amended. For an exported, well-formed Field whose value is a struct of type \<open>T\<close>:
  a name that the field lookup of \<open>T\<close> does not resolve makes \<^verbatim>\<open>FieldOk\<close> return
  (nil, false) and \<^verbatim>\<open>Field\<close> panic with "field not found"; every name that \<open>T\<close> does not
  declare is such a name when \<open>T\<close> embeds no field; and for every name that \<open>T\<close> declares,
  \<^verbatim>\<open>FieldOk\<close> returns a Field of that name, which \<^verbatim>\<open>Field\<close> returns too.
\<close>

theorem FieldOk_lookup:
  assumes "IsExported f" and "wfField f" and "f_value f = Val T st em d"
    and "load s d = Some y" and "hasType T y" and "kindOf T = Struct"
  shows "(structFieldByName T name = None \<longrightarrow>
            FieldOk f name s = Inr None \<and> Field' f name s = Inl (Panic ''field not found''))
       \<and> (name \<notin> set (declaredNames T) \<and> \<not> hasEmbeds (structFields T) \<longrightarrow>
            structFieldByName T name = None)
       \<and> (name \<in> set (declaredNames T) \<and> name \<noteq> [] \<longrightarrow>
            (\<exists>g. FieldOk f name s = Inr (Some g) \<and> Field' f name s = Inr g \<and> Name g = name))"
proof -
  from assms(1,2,3) have ro: "\<not> st" "\<not> em" by (auto simp: wfField_def flagRO_def)
  from hasType_Struct[OF assms(6,5)] obtain vs where
    vs: "y = VStruct vs" "length vs = length (structFields T)" by blast
  have iface: "Value_Interface s (f_value f) = Inr (Some (T, y))"
    using assms(3,4,6) ro by (simp add: Value_Interface_def)
  have sv: "strctVal (Some (T, y)) = Inr (Val T False False (Held y))"
    using assms(6) by (simp add: strctVal_def reflect_ValueOf_def Value_Kind_def)
  have pre: "FieldOk f name s =
       (case structFieldByName T name of
          None \<Rightarrow> Inr None
        | Some field \<Rightarrow>
            (case Value_FieldByIndex s (Val T False False (Held y)) (sf_Index field) of
               Inl a \<Rightarrow> Inl a
             | Inr fv \<Rightarrow> Inr (Some \<lparr>f_value = fv, f_field = field\<rparr>)))"
    using iface sv assms(6)
    by (simp add: FieldOk_def Value_Type_def Type_FieldByName_def Value_FieldByName_def
        split: option.splits)
  have 1: "structFieldByName T name = None \<longrightarrow>
            FieldOk f name s = Inr None \<and> Field' f name s = Inl (Panic ''field not found'')"
    using pre by (simp add: Field'_def)
  have 2: "name \<notin> set (declaredNames T) \<and> \<not> hasEmbeds (structFields T) \<longrightarrow>
            structFieldByName T name = None"
    by (simp add: structFieldByName_def declaredNames_def quickCheck_None)
  have 3: "name \<in> set (declaredNames T) \<and> name \<noteq> [] \<longrightarrow>
            (\<exists>g. FieldOk f name s = Inr (Some g) \<and> Field' f name s = Inr g \<and> Name g = name)"
  proof
    assume a: "name \<in> set (declaredNames T) \<and> name \<noteq> []"
    then have "name \<in> set (map (\<lambda>d. declName (fst d)) (structFields T))"
      by (simp add: declaredNames_def)
    from quickCheck_found[OF this, of 0] obtain j where
      j: "j < length (structFields T)"
         "quickCheck name (structFields T) 0 = Some (mkStructField (structFields T ! j) [j])"
         "declName (fst (structFields T ! j)) = name" by auto
    have sf: "structFieldByName T name = Some (mkStructField (structFields T ! j) [j])"
      using a j(2) by (simp add: structFieldByName_def)
    have "\<exists>w. Value_FieldByIndex s (Val T False False (Held y)) [j] = Inr w"
      using j(1) vs assms(6) by (simp add: Value_FieldByIndex_def Value_Field_def Let_def)
    then obtain w where
      w: "Value_FieldByIndex s (Val T False False (Held y)) [j] = Inr w" by blast
    have "FieldOk f name s = Inr (Some \<lparr>f_value = w, f_field = mkStructField (structFields T ! j) [j]\<rparr>)"
      using pre sf w by (simp add: mkStructField_def)
    then show "\<exists>g. FieldOk f name s = Inr (Some g) \<and> Field' f name s = Inr g \<and> Name g = name"
      using j(3) by (simp add: Field'_def Name_def mkStructField_def)
  qed
  from 1 2 3 show ?thesis by blast
qed

text \<open>
  Witness for C7: on a Field holding an \<^verbatim>\<open>Inner\<close>, the name \<^verbatim>\<open>Missing\<close> is not found and
  the name \<^verbatim>\<open>X\<close> is.
\<close>

theorem FieldOk_lookup_witness:
  "IsExported exFieldI \<and> wfField exFieldI
   \<and> f_value exFieldI = Val exInner False False (Held (VStruct [VInt 3]))
   \<and> load exStore (Held (VStruct [VInt 3])) = Some (VStruct [VInt 3])
   \<and> hasType exInner (VStruct [VInt 3]) \<and> kindOf exInner = Struct
   \<and> ''Missing'' \<notin> set (declaredNames exInner) \<and> \<not> hasEmbeds (structFields exInner)
   \<and> structFieldByName exInner ''Missing'' = None
   \<and> FieldOk exFieldI ''Missing'' exStore = Inr None
   \<and> Field' exFieldI ''Missing'' exStore = Inl (Panic ''field not found'')
   \<and> ''X'' \<in> set (declaredNames exInner)
   \<and> (\<exists>g. FieldOk exFieldI ''X'' exStore = Inr (Some g) \<and> Field' exFieldI ''X'' exStore = Inr g
           \<and> Name g = ''X'')"
proof -
  have h: "IsExported exFieldI" "wfField exFieldI"
    "f_value exFieldI = Val exInner False False (Held (VStruct [VInt 3]))"
    "load exStore (Held (VStruct [VInt 3])) = Some (VStruct [VInt 3])"
    "hasType exInner (VStruct [VInt 3])" "kindOf exInner = Struct"
    by (simp_all add: ex_defs exFieldI_def exInner_def field_defs wfField_def)
  have m: "''Missing'' \<notin> set (declaredNames exInner)" "\<not> hasEmbeds (structFields exInner)"
    and x: "''X'' \<in> set (declaredNames exInner)"
    by (simp_all add: ex_defs exInner_def declaredNames_def hasEmbeds_def)
  show ?thesis
    using h m x FieldOk_lookup[OF h, of "''Missing''"] FieldOk_lookup[OF h, of "''X''"]
    by simp
qed

text \<open>
  Counterexample to C7 as stated, in two parts. The struct \<^verbatim>\<open>struct { Inner; Y string }\<close>
  declares no field \<^verbatim>\<open>X\<close>, and \<^verbatim>\<open>FieldOk("X")\<close> finds the field \<^verbatim>\<open>X\<close> of the embedded \<^verbatim>\<open>Inner\<close>.
  Should a promoted field count as declared: in \<^verbatim>\<open>struct { *Inner }\<close> with a nil pointer the
  field lookup resolves \<^verbatim>\<open>X\<close> as well, and \<^verbatim>\<open>FieldOk("X")\<close> panics.
\<close>

theorem FieldOk_lookup_counterexample:
  "IsExported exFieldO \<and> wfField exFieldO \<and> Kind exFieldO = Struct
   \<and> ''X'' \<notin> set (declaredNames exOuter)
   \<and> FieldOk exFieldO ''X'' exStore =
       Inr (Some \<lparr>f_value = Val (Basic TInt) False False (Held (VInt 3)),
                  f_field = mkStructField (decl ''X'' [] False, Basic TInt) [0, 0]\<rparr>)
   \<and> IsExported exFieldOP \<and> wfField exFieldOP \<and> Kind exFieldOP = Struct
   \<and> structFieldByName exOuterPtr ''X'' =
       Some (mkStructField (decl ''X'' [] False, Basic TInt) [0, 0])
   \<and> FieldOk exFieldOP ''X'' exStore =
       Inl (Panic ''reflect: indirection through nil pointer to embedded struct'')"
  by (simp add: ex_defs exFieldO_def exFieldOP_def exOuter_def exOuterPtr_def exInner_def
      field_defs lookup_defs declaredNames_def Value_Interface_def Value_Type_def wfField_def)

subsection \<open>The descriptor\<close>
























end
